theory Spec2Isabelle
  imports Complex_Main "HOL-Library.AList"
begin

section \<open>Values of the plugin runtime\<close>

text \<open>
  The model follows \<^verbatim>\<open>plugin_base.py\<close> (class \<^verbatim>\<open>PluginBase\<close>) and
  \<^verbatim>\<open>ipc_client.py\<close> (class \<^verbatim>\<open>IPCClient\<close>).

  Python dictionaries are association lists in insertion order: \<open>map_of\<close> is the lookup,
  \<open>AList.update\<close> is \<^verbatim>\<open>d[k] = v\<close> (in place for a known key, appended for a new one)
  and \<open>AList.delete\<close> is \<^verbatim>\<open>d.pop(k, None)\<close>. Python integers are \<open>int\<close>. Python floats
  (clock readings, durations) are idealised as \<open>real\<close>: no rounding, no NaN, no infinity;
  the one infinity of the source, the initial \<^verbatim>\<open>min_duration = float('inf')\<close>, is \<open>None\<close>.
  An exception is a value; a function that can raise returns \<open>py_exception + 'a\<close> with
  \<open>Inl\<close> for the raise.
\<close>

datatype json =
    JNull
  | JBool bool
  | JNum int
  | JStr string
  | JList "json list"
  | JObj "(string \<times> json) list"

text \<open>Python truthiness of a decoded JSON value (\<^verbatim>\<open>x or default\<close>, \<^verbatim>\<open>if x\<close>).\<close>

fun truthy :: "json \<Rightarrow> bool" where
  "truthy JNull = False"
| "truthy (JBool b) = b"
| "truthy (JNum n) = (n \<noteq> 0)"
| "truthy (JStr s) = (s \<noteq> [])"
| "truthy (JList xs) = (xs \<noteq> [])"
| "truthy (JObj kvs) = (kvs \<noteq> [])"

text \<open>
  \<^verbatim>\<open>Exception(msg)\<close>, and the \<^verbatim>\<open>asyncio.InvalidStateError\<close> a settled future raises;
  \<open>str_of\<close> is \<^verbatim>\<open>str(error)\<close>.
\<close>

datatype py_exception = Exception string | InvalidStateError string

fun str_of :: "py_exception \<Rightarrow> string" where
  "str_of (Exception m) = m"
| "str_of (InvalidStateError m) = m"

type_synonym event = "(string \<times> json) list"

text \<open>
  A handler supplied by the plugin author is known to the runtime only by whether a call
  returns (\<open>None\<close>) or raises (\<open>Some e\<close>).
\<close>

type_synonym command_handler = "event \<Rightarrow> json list \<Rightarrow> py_exception option"
type_synonym event_handler = "event \<Rightarrow> py_exception option"
type_synonym task_handler = "unit \<Rightarrow> py_exception option"

text \<open>
  What the interpreter supplies during one invocation: the clock readings in the order the
  code takes them, and the text of \<^verbatim>\<open>traceback.format_exc()\<close>.
\<close>

record env =
  now_activity :: real  \<comment> \<open>\<^verbatim>\<open>datetime.now().timestamp()\<close> for \<^verbatim>\<open>last_activity\<close>\<close>
  now_executed :: real  \<comment> \<open>\<^verbatim>\<open>datetime.now().timestamp()\<close> for a task's \<^verbatim>\<open>last_executed\<close>\<close>
  t_start :: real       \<comment> \<open>\<^verbatim>\<open>start_time = time.time()\<close>\<close>
  t_error :: real       \<comment> \<open>\<^verbatim>\<open>time.time()\<close> inside the error record\<close>
  stack :: string       \<comment> \<open>\<^verbatim>\<open>traceback.format_exc()\<close>\<close>
  t_end :: real         \<comment> \<open>\<^verbatim>\<open>time.time()\<close> in the \<^verbatim>\<open>finally\<close> block\<close>
  t_sample :: real      \<comment> \<open>\<^verbatim>\<open>time.time()\<close> inside the performance record\<close>

record error_info =
  e_type :: string
  e_source :: string
  e_message :: string
  e_stack :: string
  e_timestamp :: real
  e_plugin_id :: string
  e_plugin_name :: string

record sample =
  sm_timestamp :: real
  sm_duration :: real
  sm_success :: bool

record perf =
  total_executions :: int
  successful_executions :: int
  failed_executions :: int
  total_duration :: real
  min_duration :: "real option"
  max_duration :: real
  avg_duration :: real
  last_executions :: "sample list"

record statistics =
  command_executions :: int
  events_handled :: int
  tasks_executed :: int
  errors_occurred :: int

record task_info =
  ti_name :: string
  ti_cron :: string
  ti_execution_count :: int
  ti_last_executed :: "real option"
  ti_is_active :: bool
  ti_handler :: "task_handler option"  \<comment> \<open>the handler captured by the stored wrapper\<close>

text \<open>
  Requests the plugin hands to its IPC client (\<^verbatim>\<open>self.ipc.send_request\<close>). The command
  wrapper's failure notice goes out through \<^verbatim>\<open>send_message\<close>, \<^verbatim>\<open>call_api\<close> and
  \<^verbatim>\<open>send_request('callApi', ...)\<close>; its text is the fixed notice around the command name
  and \<^verbatim>\<open>str(error)\<close>, and whatever comes back (a reply, a timeout, any exception) is
  swallowed by the bare \<^verbatim>\<open>except: pass\<close>, so only the emission is kept.
\<close>

datatype outbound =
    Register_command_remote string string "(string \<times> json) list"
      \<comment> \<open>command, plugin id, options\<close>
  | Register_schedule_remote string string
      \<comment> \<open>qualified task name, cron\<close>
  | Error_notice "json option" string string json
      \<comment> \<open>\<^verbatim>\<open>event.get('user_id')\<close>, command, \<^verbatim>\<open>str(error)\<close>, \<^verbatim>\<open>event.get('message_type', 'private')\<close>\<close>

record plugin =
  info_id :: string
  info_name :: "string option"
  is_enabled :: bool
  event_handlers :: "(string \<times> event_handler list) list"
  command_handlers :: "(string \<times> command_handler) list"
  scheduled_tasks :: "(string \<times> task_info) list"
  statistics :: statistics
  command_performance :: "(string \<times> perf) list"
  event_performance :: "(string \<times> perf) list"
  task_performance :: "(string \<times> perf) list"
  last_activity :: real
  errors :: "error_info list"
  concurrent_operations :: int
  max_concurrent_operations :: int
  sent :: "outbound list"

text \<open>\<^verbatim>\<open>PluginBase.__init__\<close>.\<close>

definition init :: "string \<Rightarrow> string option \<Rightarrow> real \<Rightarrow> plugin" where
  "init plugin_id plugin_name now =
     \<lparr>info_id = plugin_id, info_name = plugin_name, is_enabled = False,
      event_handlers = [], command_handlers = [], scheduled_tasks = [],
      statistics = \<lparr>command_executions = 0, events_handled = 0, tasks_executed = 0,
                    errors_occurred = 0\<rparr>,
      command_performance = [], event_performance = [], task_performance = [],
      last_activity = now, errors = [],
      concurrent_operations = 0, max_concurrent_operations = 0, sent = []\<rparr>"

section \<open>Error and performance recording\<close>

text \<open>
  \<^verbatim>\<open>_PluginBase__record_error_internal\<close>: append, count, then drop the oldest entry once
  the log is longer than 100. \<^verbatim>\<open>errors.pop(0)\<close> runs on a non-empty list only, where it
  is \<open>tl\<close>.
\<close>

definition record_error_internal ::
  "string \<Rightarrow> string \<Rightarrow> py_exception \<Rightarrow> string \<Rightarrow> real \<Rightarrow> plugin \<Rightarrow> plugin" where
  "record_error_internal error_type source error trace now s =
     (let error_info = \<lparr>e_type = error_type, e_source = source, e_message = str_of error,
                         e_stack = trace, e_timestamp = now * 1000,
                         e_plugin_id = info_id s,
                         e_plugin_name = (case info_name s of Some n \<Rightarrow> n | None \<Rightarrow> info_id s)\<rparr>;
          s1 = s\<lparr>errors := errors s @ [error_info]\<rparr>;
          s2 = s1\<lparr>statistics := (statistics s1)\<lparr>errors_occurred :=
                                      errors_occurred (statistics s1) + 1\<rparr>\<rparr>
      in if length (errors s2) > 100 then s2\<lparr>errors := tl (errors s2)\<rparr> else s2)"

text \<open>
  The dictionary a performance type selects:
  \<^verbatim>\<open>{'command': ..., 'event': ..., 'task': ...}.get(perf_type, command_performance)\<close>.
\<close>

datatype perf_slot = Command_slot | Event_slot | Task_slot

definition select_slot :: "string \<Rightarrow> perf_slot" where
  "select_slot perf_type =
     (if perf_type = ''command'' then Command_slot
      else if perf_type = ''event'' then Event_slot
      else if perf_type = ''task'' then Task_slot
      else Command_slot)"

fun perf_map :: "perf_slot \<Rightarrow> plugin \<Rightarrow> (string \<times> perf) list" where
  "perf_map Command_slot s = command_performance s"
| "perf_map Event_slot s = event_performance s"
| "perf_map Task_slot s = task_performance s"

fun set_perf_map :: "perf_slot \<Rightarrow> (string \<times> perf) list \<Rightarrow> plugin \<Rightarrow> plugin" where
  "set_perf_map Command_slot m s = s\<lparr>command_performance := m\<rparr>"
| "set_perf_map Event_slot m s = s\<lparr>event_performance := m\<rparr>"
| "set_perf_map Task_slot m s = s\<lparr>task_performance := m\<rparr>"

definition new_perf :: perf where
  "new_perf = \<lparr>total_executions = 0, successful_executions = 0, failed_executions = 0,
               total_duration = 0, min_duration = None, max_duration = 0, avg_duration = 0,
               last_executions = []\<rparr>"

text \<open>The body of \<^verbatim>\<open>__record_performance_internal\<close> on the record of one name.\<close>

definition add_sample :: "real \<Rightarrow> bool \<Rightarrow> real \<Rightarrow> perf \<Rightarrow> perf" where
  "add_sample duration success now p0 =
     (let p1 = p0\<lparr>total_executions := total_executions p0 + 1\<rparr>;
          p2 = (if success
                then p1\<lparr>successful_executions := successful_executions p1 + 1\<rparr>
                else p1\<lparr>failed_executions := failed_executions p1 + 1\<rparr>);
          p3 = p2\<lparr>total_duration := total_duration p2 + duration\<rparr>;
          p4 = p3\<lparr>min_duration := (case min_duration p3 of
                                      None \<Rightarrow> Some duration
                                    | Some m \<Rightarrow> Some (min m duration))\<rparr>;
          p5 = p4\<lparr>max_duration := max (max_duration p4) duration\<rparr>;
          p6 = p5\<lparr>avg_duration := total_duration p5 / of_int (total_executions p5)\<rparr>;
          p7 = p6\<lparr>last_executions := last_executions p6 @
                     [\<lparr>sm_timestamp = now * 1000, sm_duration = duration,
                       sm_success = success\<rparr>]\<rparr>
      in if length (last_executions p7) > 20
         then p7\<lparr>last_executions := tl (last_executions p7)\<rparr> else p7)"

text \<open>
  \<^verbatim>\<open>_PluginBase__record_performance_internal\<close>. The duration is a number by its type
  here, so of the guard \<^verbatim>\<open>not isinstance(duration, (int, float)) or duration < 0\<close> the
  sign test remains: a negative duration records nothing.
\<close>

definition record_performance_internal ::
  "string \<Rightarrow> string \<Rightarrow> real \<Rightarrow> bool \<Rightarrow> real \<Rightarrow> plugin \<Rightarrow> plugin" where
  "record_performance_internal perf_type name duration success now s =
     (if duration < 0 then s
      else
        let slot = select_slot perf_type;
            m = perf_map slot s;
            p0 = (case map_of m name of None \<Rightarrow> new_perf | Some p \<Rightarrow> p)
        in set_perf_map slot (AList.update name (add_sample duration success now p0) m) s)"

text \<open>The public entry points \<^verbatim>\<open>_record_error\<close> and \<^verbatim>\<open>_record_performance\<close>.\<close>

definition record_error ::
  "string \<Rightarrow> string \<Rightarrow> py_exception \<Rightarrow> string \<Rightarrow> real \<Rightarrow> plugin \<Rightarrow> plugin" where
  "record_error error_type source error trace now s =
     record_error_internal error_type source error trace now s"

definition record_performance ::
  "string \<Rightarrow> string \<Rightarrow> real \<Rightarrow> bool \<Rightarrow> real \<Rightarrow> plugin \<Rightarrow> plugin" where
  "record_performance perf_type name duration success now s =
     record_performance_internal perf_type name duration success now s"

section \<open>The instrumentation wrappers\<close>

text \<open>
  \<^verbatim>\<open>register_command\<close> and \<^verbatim>\<open>register_event\<close> store a closure \<^verbatim>\<open>wrapped_handler\<close>
  whose only captures are the name and the handler of the registration; \<^verbatim>\<open>schedule\<close>
  stores one that also captures the task's own \<^verbatim>\<open>task_info\<close>, the dictionary kept in
  \<^verbatim>\<open>_scheduled_tasks[name]\<close>. The tables of the model keep the captured handler, and
  the functions below are the closures' bodies.

  A wrapper is a coroutine: it runs up to \<^verbatim>\<open>await handler(...)\<close>, is suspended while the
  handler runs, and goes on when the handler has returned or raised. Other coroutines run
  while it is suspended. The pieces between the awaits are \<open>command_enter\<close>,
  \<open>event_enter\<close>, \<open>task_enter\<close>, the error record, the notice and \<open>wrapper_finally\<close>;
  section \<open>Overlapping invocations\<close> schedules them one by one. The functions
  \<open>wrapped_command_handler\<close>, \<open>wrapped_event_handler\<close> and \<open>wrapped_task_handler\<close> are one
  invocation from its first statement to its last with nothing else scheduled in between.

  The statements of a wrapper before its \<^verbatim>\<open>try\<close>:
\<close>

definition command_enter :: "env \<Rightarrow> plugin \<Rightarrow> plugin" where
  "command_enter env s =
     (let s1 = s\<lparr>last_activity := now_activity env\<rparr>;
          s2 = s1\<lparr>statistics := (statistics s1)\<lparr>command_executions :=
                                      command_executions (statistics s1) + 1\<rparr>\<rparr>;
          s3 = s2\<lparr>concurrent_operations := concurrent_operations s2 + 1\<rparr>
      in if concurrent_operations s3 > max_concurrent_operations s3
         then s3\<lparr>max_concurrent_operations := concurrent_operations s3\<rparr> else s3)"

definition event_enter :: "env \<Rightarrow> plugin \<Rightarrow> plugin" where
  "event_enter env s =
     (let s1 = s\<lparr>last_activity := now_activity env\<rparr>;
          s2 = s1\<lparr>statistics := (statistics s1)\<lparr>events_handled :=
                                      events_handled (statistics s1) + 1\<rparr>\<rparr>;
          s3 = s2\<lparr>concurrent_operations := concurrent_operations s2 + 1\<rparr>
      in if concurrent_operations s3 > max_concurrent_operations s3
         then s3\<lparr>max_concurrent_operations := concurrent_operations s3\<rparr> else s3)"

text \<open>
  The task wrapper of \<^verbatim>\<open>schedule\<close> has these four statements before its \<^verbatim>\<open>try\<close>;
  \<^verbatim>\<open>task_info\<close> is the entry of the table under the task's name.
\<close>

definition task_enter :: "string \<Rightarrow> env \<Rightarrow> plugin \<Rightarrow> plugin" where
  "task_enter name env s =
     (let s1 = s\<lparr>last_activity := now_activity env\<rparr>;
          s2 = s1\<lparr>statistics := (statistics s1)\<lparr>tasks_executed :=
                                      tasks_executed (statistics s1) + 1\<rparr>\<rparr>
      in case map_of (scheduled_tasks s2) name of
           None \<Rightarrow> s2
         | Some ti \<Rightarrow>
             s2\<lparr>scheduled_tasks := AList.update name
                   (ti\<lparr>ti_execution_count := ti_execution_count ti + 1,
                       ti_last_executed := Some (now_executed env)\<rparr>)
                   (scheduled_tasks s2)\<rparr>)"

text \<open>The \<^verbatim>\<open>finally\<close> block of the command and event wrappers.\<close>

definition wrapper_finally :: "string \<Rightarrow> string \<Rightarrow> bool \<Rightarrow> env \<Rightarrow> plugin \<Rightarrow> plugin" where
  "wrapper_finally perf_type name success env s =
     (let s1 = s\<lparr>concurrent_operations := concurrent_operations s - 1\<rparr>;
          duration = (t_end env - t_start env) * 1000
      in record_performance_internal perf_type name duration success (t_sample env) s1)"

text \<open>The command wrapper's failure notice to the user (\<^verbatim>\<open>send_message\<close>).\<close>

definition send_error_notice :: "string \<Rightarrow> py_exception \<Rightarrow> event \<Rightarrow> plugin \<Rightarrow> plugin" where
  "send_error_notice command error event s =
     s\<lparr>sent := sent s @
          [Error_notice (map_of event ''user_id'') command (str_of error)
             (case map_of event ''message_type'' of None \<Rightarrow> JStr ''private'' | Some t \<Rightarrow> t)]\<rparr>"

text \<open>
  \<^verbatim>\<open>register_command.wrapped_handler\<close>, run without overlap. Its \<^verbatim>\<open>except Exception\<close>
  branch records the error and sends the notice; it has no \<^verbatim>\<open>raise\<close>, so the call
  returns.
\<close>

definition wrapped_command_handler ::
  "string \<Rightarrow> command_handler \<Rightarrow> env \<Rightarrow> event \<Rightarrow> json list \<Rightarrow> plugin
     \<Rightarrow> (py_exception + unit) \<times> plugin" where
  "wrapped_command_handler command handler env event args s =
     (let s1 = command_enter env s
      in case handler event args of
           None \<Rightarrow> (Inr (), wrapper_finally ''command'' command True env s1)
         | Some error \<Rightarrow>
             (let s2 = record_error_internal ''command'' command error (stack env)
                         (t_error env) s1;
                  s3 = send_error_notice command error event s2
              in (Inr (), wrapper_finally ''command'' command False env s3)))"

text \<open>
  \<^verbatim>\<open>register_event.wrapped_handler\<close>, run without overlap. Its \<^verbatim>\<open>except Exception\<close>
  branch records the error and ends in \<^verbatim>\<open>raise\<close>.
\<close>

definition wrapped_event_handler ::
  "string \<Rightarrow> event_handler \<Rightarrow> env \<Rightarrow> event \<Rightarrow> plugin \<Rightarrow> (py_exception + unit) \<times> plugin" where
  "wrapped_event_handler event_type handler env event s =
     (let s1 = event_enter env s
      in case handler event of
           None \<Rightarrow> (Inr (), wrapper_finally ''event'' event_type True env s1)
         | Some error \<Rightarrow>
             (let s2 = record_error_internal ''event'' event_type error (stack env)
                         (t_error env) s1
              in (Inl error, wrapper_finally ''event'' event_type False env s2)))"

text \<open>
  \<^verbatim>\<open>schedule.wrapped_handler\<close>, run without overlap: no concurrency accounting, no
  timing, no \<^verbatim>\<open>finally\<close>;
  a failure is recorded through \<^verbatim>\<open>_record_error\<close> and raised again.
\<close>

definition wrapped_task_handler ::
  "string \<Rightarrow> task_handler \<Rightarrow> env \<Rightarrow> plugin \<Rightarrow> (py_exception + unit) \<times> plugin" where
  "wrapped_task_handler name handler env s =
     (let s1 = task_enter name env s
      in case handler () of
           None \<Rightarrow> (Inr (), s1)
         | Some error \<Rightarrow>
             (Inl error, record_error ''task'' name error (stack env) (t_error env) s1))"

section \<open>Registration and dispatch\<close>

text \<open>
  \<^verbatim>\<open>register_command\<close>: the table entry, and the \<^verbatim>\<open>registerCommand\<close> request started
  with \<^verbatim>\<open>asyncio.create_task\<close>.
\<close>

definition register_command ::
  "string \<Rightarrow> command_handler \<Rightarrow> (string \<times> json) list \<Rightarrow> plugin \<Rightarrow> plugin" where
  "register_command command handler options s =
     s\<lparr>command_handlers := AList.update command handler (command_handlers s),
       sent := sent s @ [Register_command_remote command (info_id s) options]\<rparr>"

definition register_event :: "string \<Rightarrow> event_handler \<Rightarrow> plugin \<Rightarrow> plugin" where
  "register_event event_type handler s =
     (let hs = (case map_of (event_handlers s) event_type of None \<Rightarrow> [] | Some l \<Rightarrow> l)
      in s\<lparr>event_handlers := AList.update event_type (hs @ [handler]) (event_handlers s)\<rparr>)"

text \<open>
  \<^verbatim>\<open>schedule\<close>: the bookkeeping entry is stored, the \<^verbatim>\<open>registerSchedule\<close> request is
  awaited (\<open>reply\<close> is \<open>Some e\<close> when that request raises \<open>e\<close>), and only then is the
  wrapper saved under \<^verbatim>\<open>'handler'\<close>.
\<close>

definition schedule ::
  "string \<Rightarrow> string \<Rightarrow> task_handler \<Rightarrow> py_exception option \<Rightarrow> plugin
     \<Rightarrow> (py_exception + unit) \<times> plugin" where
  "schedule name cron handler reply s =
     (let task = \<lparr>ti_name = name, ti_cron = cron, ti_execution_count = 0,
                   ti_last_executed = None, ti_is_active = True, ti_handler = None\<rparr>;
          s1 = s\<lparr>scheduled_tasks := AList.update name task (scheduled_tasks s)\<rparr>;
          s2 = s1\<lparr>sent := sent s1 @
                   [Register_schedule_remote (info_id s1 @ ''.'' @ name) cron]\<rparr>
      in case reply of
           Some error \<Rightarrow> (Inl error, s2)
         | None \<Rightarrow>
             (Inr (), s2\<lparr>scheduled_tasks := AList.update name
                            (task\<lparr>ti_handler := Some handler\<rparr>) (scheduled_tasks s2)\<rparr>))"

text \<open>
  \<^verbatim>\<open>dispatch_command\<close>. \<open>denv\<close> holds the readings \<^verbatim>\<open>dispatch_command\<close> takes itself,
  \<open>env\<close> those of the wrapper it calls. \<^verbatim>\<open>args or []\<close> turns a missing list into the
  empty one.
\<close>

definition dispatch_command ::
  "string \<Rightarrow> event \<Rightarrow> json list option \<Rightarrow> env \<Rightarrow> env \<Rightarrow> plugin
     \<Rightarrow> (py_exception + unit) \<times> plugin" where
  "dispatch_command command event args denv env s =
     (case map_of (command_handlers s) command of
        Some handler \<Rightarrow>
          (let s1 = s\<lparr>last_activity := now_activity denv\<rparr>;
               s2 = s1\<lparr>statistics := (statistics s1)\<lparr>command_executions :=
                                           command_executions (statistics s1) + 1\<rparr>\<rparr>
           in case wrapped_command_handler command handler env event
                     (case args of None \<Rightarrow> [] | Some a \<Rightarrow> a) s2 of
                (Inr u, s3) \<Rightarrow> (Inr (), s3)
              | (Inl error, s3) \<Rightarrow>
                  (Inl error,
                   record_error ''command'' command error (stack denv) (t_error denv) s3))
      | None \<Rightarrow> (Inl (Exception (''Unknown command: '' @ command)), s))"

text \<open>
  \<^verbatim>\<open>dispatch_event\<close>: every wrapper registered for the type, in registration order; a
  failure is caught per handler. \<open>envs i\<close> is the environment of the \<open>i\<close>-th call.
\<close>

fun dispatch_event_loop ::
  "string \<Rightarrow> event_handler list \<Rightarrow> (nat \<Rightarrow> env) \<Rightarrow> event \<Rightarrow> plugin \<Rightarrow> plugin" where
  "dispatch_event_loop event_type [] envs event_data s = s"
| "dispatch_event_loop event_type (h # hs) envs event_data s =
     dispatch_event_loop event_type hs (\<lambda>i. envs (Suc i)) event_data
       (snd (wrapped_event_handler event_type h (envs 0) event_data s))"

definition dispatch_event :: "string \<Rightarrow> event \<Rightarrow> (nat \<Rightarrow> env) \<Rightarrow> plugin \<Rightarrow> plugin" where
  "dispatch_event event_type event_data envs s =
     (case map_of (event_handlers s) event_type of
        Some hs \<Rightarrow> dispatch_event_loop event_type hs envs event_data s
      | None \<Rightarrow> s)"

text \<open>\<^verbatim>\<open>dispatch_task\<close>: a missing task or handler is a no-op, a failure is caught.\<close>

definition dispatch_task :: "string \<Rightarrow> env \<Rightarrow> plugin \<Rightarrow> plugin" where
  "dispatch_task task_name env s =
     (case map_of (scheduled_tasks s) task_name of
        Some ti \<Rightarrow>
          (case ti_handler ti of
             Some handler \<Rightarrow> snd (wrapped_task_handler task_name handler env s)
           | None \<Rightarrow> s)
      | None \<Rightarrow> s)"

text \<open>The operations that change a plugin, and a run of them.\<close>

datatype op =
    Op_register_command string command_handler "(string \<times> json) list"
  | Op_register_event string event_handler
  | Op_schedule string string task_handler "py_exception option"
  | Op_dispatch_command string event "json list option" env env
  | Op_dispatch_event string event "nat \<Rightarrow> env"
  | Op_dispatch_task string env
  | Op_record_error string string py_exception string real
  | Op_record_performance string string real bool real
  | Op_on_enable
  | Op_on_disable

fun exec_op :: "op \<Rightarrow> plugin \<Rightarrow> plugin" where
  "exec_op (Op_register_command c h opts) s = register_command c h opts s"
| "exec_op (Op_register_event t h) s = register_event t h s"
| "exec_op (Op_schedule n c h reply) s = snd (schedule n c h reply s)"
| "exec_op (Op_dispatch_command c ev args denv env) s =
     snd (dispatch_command c ev args denv env s)"
| "exec_op (Op_dispatch_event t ev envs) s = dispatch_event t ev envs s"
| "exec_op (Op_dispatch_task n env) s = dispatch_task n env s"
| "exec_op (Op_record_error t src e trace now) s = record_error t src e trace now s"
| "exec_op (Op_record_performance t n d ok now) s = record_performance t n d ok now s"
| "exec_op Op_on_enable s = s\<lparr>is_enabled := True\<rparr>"
| "exec_op Op_on_disable s = s\<lparr>is_enabled := False\<rparr>"

definition run :: "op list \<Rightarrow> plugin \<Rightarrow> plugin" where
  "run ops s = foldl (\<lambda>st o'. exec_op o' st) s ops"

section \<open>Overlapping invocations\<close>

text \<open>
  Every inbound request becomes a task of its own (\<^verbatim>\<open>asyncio.create_task\<close> in
  \<^verbatim>\<open>_handle_message\<close>), so several wrappers can be suspended at their awaits at once. A
  suspended wrapper is a frame: its kind, the name and event it was called with, its local
  \<^verbatim>\<open>start_time\<close>, and the await it is suspended at. The command wrapper has two awaits, the
  handler and, in its \<^verbatim>\<open>except\<close> branch, \<^verbatim>\<open>send_message\<close>; the other two have one.
\<close>

datatype kind = Command_kind | Event_kind | Task_kind

datatype stage = Awaiting_handler | Awaiting_notice

record frame =
  fr_kind :: kind
  fr_name :: string
  fr_event :: event
  fr_start :: real
  fr_stage :: stage

definition new_frame :: "kind \<Rightarrow> string \<Rightarrow> event \<Rightarrow> env \<Rightarrow> frame" where
  "new_frame k name event env =
     \<lparr>fr_kind = k, fr_name = name, fr_event = event, fr_start = t_start env,
      fr_stage = Awaiting_handler\<rparr>"

definition drop_frame :: "nat \<Rightarrow> frame list \<Rightarrow> frame list" where
  "drop_frame i fs = take i fs @ drop (Suc i) fs"

text \<open>
  What the scheduler can do next: start a wrapper (it runs to its first await), let the
  handler of the \<open>i\<close>-th suspended wrapper return or raise (the wrapper runs on to its next
  await or to its end), let the notice of the \<open>i\<close>-th wrapper come back (the command wrapper
  runs its \<^verbatim>\<open>finally\<close>), or run any operation of the plugin that is done without being
  suspended.
\<close>

datatype cstep =
    Call_command string event env
  | Call_event string event env
  | Call_task string env
  | Return nat "py_exception option" env
  | Notice_done nat env
  | Atomic op

text \<open>
  The \<open>i\<close>-th wrapper goes on after its handler: \<open>outcome\<close> is \<open>None\<close> when the handler
  returned and \<open>Some e\<close> when it raised \<open>e\<close>. The \<^verbatim>\<open>finally\<close> block measures from the frame's
  own \<^verbatim>\<open>start_time\<close>.
\<close>

definition return_frame ::
  "nat \<Rightarrow> py_exception option \<Rightarrow> env \<Rightarrow> plugin \<times> frame list \<Rightarrow> plugin \<times> frame list" where
  "return_frame i outcome env c =
     (let s = fst c; fs = snd c; f = fs ! i; e = env\<lparr>t_start := fr_start f\<rparr>
      in case fr_kind f of
           Command_kind \<Rightarrow>
             (case outcome of
                None \<Rightarrow> (wrapper_finally ''command'' (fr_name f) True e s, drop_frame i fs)
              | Some error \<Rightarrow>
                  (send_error_notice (fr_name f) error (fr_event f)
                     (record_error_internal ''command'' (fr_name f) error (stack env)
                        (t_error env) s),
                   fs[i := f\<lparr>fr_stage := Awaiting_notice\<rparr>]))
         | Event_kind \<Rightarrow>
             (case outcome of
                None \<Rightarrow> (wrapper_finally ''event'' (fr_name f) True e s, drop_frame i fs)
              | Some error \<Rightarrow>
                  (wrapper_finally ''event'' (fr_name f) False e
                     (record_error_internal ''event'' (fr_name f) error (stack env)
                        (t_error env) s),
                   drop_frame i fs))
         | Task_kind \<Rightarrow>
             (case outcome of
                None \<Rightarrow> (s, drop_frame i fs)
              | Some error \<Rightarrow>
                  (record_error ''task'' (fr_name f) error (stack env) (t_error env) s,
                   drop_frame i fs)))"

text \<open>One step; \<open>None\<close> when the step names no wrapper suspended at that await.\<close>

fun step :: "cstep \<Rightarrow> plugin \<times> frame list \<Rightarrow> (plugin \<times> frame list) option" where
  "step (Call_command name event env) (s, fs) =
     Some (command_enter env s, fs @ [new_frame Command_kind name event env])"
| "step (Call_event name event env) (s, fs) =
     Some (event_enter env s, fs @ [new_frame Event_kind name event env])"
| "step (Call_task name env) (s, fs) =
     Some (task_enter name env s, fs @ [new_frame Task_kind name [] env])"
| "step (Return i outcome env) (s, fs) =
     (if i < length fs \<and> fr_stage (fs ! i) = Awaiting_handler
      then Some (return_frame i outcome env (s, fs)) else None)"
| "step (Notice_done i env) (s, fs) =
     (if i < length fs \<and> fr_stage (fs ! i) = Awaiting_notice
         \<and> fr_kind (fs ! i) = Command_kind
      then Some (wrapper_finally ''command'' (fr_name (fs ! i)) False
                   (env\<lparr>t_start := fr_start (fs ! i)\<rparr>) s,
                 drop_frame i fs)
      else None)"
| "step (Atomic x) (s, fs) = Some (exec_op x s, fs)"

fun steps :: "cstep list \<Rightarrow> plugin \<times> frame list \<Rightarrow> (plugin \<times> frame list) option" where
  "steps [] c = Some c"
| "steps (x # xs) c = (case step x c of None \<Rightarrow> None | Some c' \<Rightarrow> steps xs c')"

text \<open>
  The wrappers that take part in the concurrency count (the task wrapper does not), and
  how many of them are suspended.
\<close>

definition tracked :: "frame \<Rightarrow> bool" where
  "tracked f \<longleftrightarrow> fr_kind f \<noteq> Task_kind"

definition in_flight :: "frame list \<Rightarrow> int" where
  "in_flight fs = int (length (filter tracked fs))"

text \<open>The counter after a schedule that starts with no wrapper suspended.\<close>

definition counter_after :: "cstep list \<Rightarrow> plugin \<Rightarrow> int option" where
  "counter_after sched s =
     (case steps sched (s, []) of None \<Rightarrow> None | Some c \<Rightarrow> Some (concurrent_operations (fst c)))"

section \<open>The diagnostics snapshot\<close>

text \<open>
  \<^verbatim>\<open>_calculate_avg_execution_time\<close>: over the records of all three dictionaries.
\<close>

definition calculate_avg_execution_time :: "plugin \<Rightarrow> real" where
  "calculate_avg_execution_time s =
     (let all_performance = map snd (command_performance s) @ map snd (event_performance s)
                            @ map snd (task_performance s)
      in if all_performance = [] then 0
         else
           let total_d = sum_list (map total_duration all_performance);
               total_e = sum_list (map total_executions all_performance)
           in if total_e > 0 then total_d / of_int total_e else 0)"

text \<open>
  \<^verbatim>\<open>get_detailed_info\<close> builds a new dictionary. A value in it is either an object the
  call builds, which the snapshot alone holds (\<open>Copied\<close>), or one of the plugin's own
  objects put in as it is (\<open>Live\<close>). The runtime never rebinds \<^verbatim>\<open>self.info\<close>,
  \<^verbatim>\<open>self.statistics\<close>, \<^verbatim>\<open>self.errors\<close>, \<^verbatim>\<open>self._scheduled_tasks\<close> or the three dictionaries
  of \<^verbatim>\<open>self.performance\<close>; it updates them in place, so each is one object for the life of
  the plugin, the plugin state is the store, and a reference names the object. Numbers,
  booleans and strings cannot be changed in place and are plain values.
\<close>

datatype ('a, 'r) held = Copied 'a | Live 'r

datatype info_ref = Plugin_info
datatype statistics_ref = Plugin_statistics
datatype errors_ref = Plugin_errors
datatype tasks_ref = Plugin_tasks

record task_view =
  tv_name :: string
  tv_cron :: string
  tv_execution_count :: int
  tv_last_executed :: "real option"
  tv_is_active :: bool

text \<open>
  One entry of \<^verbatim>\<open>'tasks'\<close>: \<^verbatim>\<open>{'name': name, **{k: v for k, v in task.items() if k !=
  'handler'}}\<close>; the task's own \<^verbatim>\<open>'name'\<close> comes last and is the one kept.
\<close>

definition view_task :: "string \<times> task_info \<Rightarrow> task_view" where
  "view_task nt =
     \<lparr>tv_name = ti_name (snd nt), tv_cron = ti_cron (snd nt),
      tv_execution_count = ti_execution_count (snd nt),
      tv_last_executed = ti_last_executed (snd nt),
      tv_is_active = ti_is_active (snd nt)\<rparr>"

record detailed_info =
  di_basic :: "(string \<times> string option, info_ref) held"
  di_is_enabled :: bool
  di_last_activity :: real
  di_commands :: "string list"
  di_events :: "string list"
  di_tasks :: "(task_view list, tasks_ref) held"
  di_errors :: "(error_info list, errors_ref) held"
  di_statistics :: "(statistics, statistics_ref) held"
  di_command_performance :: "((string \<times> perf) list, perf_slot) held"
  di_event_performance :: "((string \<times> perf) list, perf_slot) held"
  di_task_performance :: "((string \<times> perf) list, perf_slot) held"
  di_avg_execution_time :: real
  di_concurrent_requests :: int
  di_max_concurrent_requests :: int
  di_warnings :: "string list"
  di_is_healthy :: bool

text \<open>
  \<^verbatim>\<open>get_detailed_info\<close>, key by key: \<^verbatim>\<open>self.info\<close>, \<^verbatim>\<open>self.statistics\<close> and the three
  performance dictionaries go in as they are; \<^verbatim>\<open>list(... .keys())\<close>, the comprehension
  over the tasks and the slice \<^verbatim>\<open>self.errors[-10:]\<close> build new lists. The entries of the
  slice are the log's own entries, which the runtime never changes once they are appended.
\<close>

definition get_detailed_info :: "plugin \<Rightarrow> detailed_info" where
  "get_detailed_info s =
     \<lparr>di_basic = Live Plugin_info,
      di_is_enabled = is_enabled s, di_last_activity = last_activity s,
      di_commands = map fst (command_handlers s),
      di_events = map fst (event_handlers s),
      di_tasks = Copied (map view_task (scheduled_tasks s)),
      di_errors = Copied (drop (length (errors s) - 10) (errors s)),
      di_statistics = Live Plugin_statistics,
      di_command_performance = Live Command_slot,
      di_event_performance = Live Event_slot,
      di_task_performance = Live Task_slot,
      di_avg_execution_time = calculate_avg_execution_time s,
      di_concurrent_requests = concurrent_operations s,
      di_max_concurrent_requests = max_concurrent_operations s,
      di_warnings = [], di_is_healthy = True\<rparr>"

text \<open>
  Reading a held value while the plugin is in state \<open>s\<close>: a copy reads as what was copied,
  a live object as its contents in \<open>s\<close>.
\<close>

fun read_info :: "plugin \<Rightarrow> (string \<times> string option, info_ref) held \<Rightarrow> string \<times> string option" where
  "read_info s (Copied v) = v"
| "read_info s (Live Plugin_info) = (info_id s, info_name s)"

fun read_statistics :: "plugin \<Rightarrow> (statistics, statistics_ref) held \<Rightarrow> statistics" where
  "read_statistics s (Copied v) = v"
| "read_statistics s (Live Plugin_statistics) = statistics s"

fun read_errors :: "plugin \<Rightarrow> (error_info list, errors_ref) held \<Rightarrow> error_info list" where
  "read_errors s (Copied v) = v"
| "read_errors s (Live Plugin_errors) = errors s"

fun read_tasks :: "plugin \<Rightarrow> (task_view list, tasks_ref) held \<Rightarrow> task_view list" where
  "read_tasks s (Copied v) = v"
| "read_tasks s (Live Plugin_tasks) = map view_task (scheduled_tasks s)"

fun read_performance ::
  "plugin \<Rightarrow> ((string \<times> perf) list, perf_slot) held \<Rightarrow> (string \<times> perf) list" where
  "read_performance s (Copied v) = v"
| "read_performance s (Live sl) = perf_map sl s"

text \<open>
  Everything a holder of the snapshot \<open>d\<close> reads in it while the plugin is in state \<open>s\<close>.
\<close>

record snapshot_view =
  sv_basic :: "string \<times> string option"
  sv_is_enabled :: bool
  sv_last_activity :: real
  sv_commands :: "string list"
  sv_events :: "string list"
  sv_tasks :: "task_view list"
  sv_errors :: "error_info list"
  sv_statistics :: statistics
  sv_command_performance :: "(string \<times> perf) list"
  sv_event_performance :: "(string \<times> perf) list"
  sv_task_performance :: "(string \<times> perf) list"
  sv_avg_execution_time :: real
  sv_concurrent_requests :: int
  sv_max_concurrent_requests :: int
  sv_warnings :: "string list"
  sv_is_healthy :: bool

definition read_snapshot :: "detailed_info \<Rightarrow> plugin \<Rightarrow> snapshot_view" where
  "read_snapshot d s =
     \<lparr>sv_basic = read_info s (di_basic d),
      sv_is_enabled = di_is_enabled d,
      sv_last_activity = di_last_activity d,
      sv_commands = di_commands d,
      sv_events = di_events d,
      sv_tasks = read_tasks s (di_tasks d),
      sv_errors = read_errors s (di_errors d),
      sv_statistics = read_statistics s (di_statistics d),
      sv_command_performance = read_performance s (di_command_performance d),
      sv_event_performance = read_performance s (di_event_performance d),
      sv_task_performance = read_performance s (di_task_performance d),
      sv_avg_execution_time = di_avg_execution_time d,
      sv_concurrent_requests = di_concurrent_requests d,
      sv_max_concurrent_requests = di_max_concurrent_requests d,
      sv_warnings = di_warnings d,
      sv_is_healthy = di_is_healthy d\<rparr>"

text \<open>
  A snapshot that holds copies only, and the one a copying \<^verbatim>\<open>get_detailed_info\<close> would
  return: the same dictionary with each live object replaced by its contents at the call.
\<close>

fun is_copied :: "('a, 'r) held \<Rightarrow> bool" where
  "is_copied (Copied v) = True"
| "is_copied (Live r) = False"

definition detached :: "detailed_info \<Rightarrow> bool" where
  "detached d \<longleftrightarrow>
     is_copied (di_basic d) \<and> is_copied (di_tasks d) \<and> is_copied (di_errors d)
     \<and> is_copied (di_statistics d) \<and> is_copied (di_command_performance d)
     \<and> is_copied (di_event_performance d) \<and> is_copied (di_task_performance d)"

definition copy_snapshot :: "detailed_info \<Rightarrow> plugin \<Rightarrow> detailed_info" where
  "copy_snapshot d s =
     d\<lparr>di_basic := Copied (read_info s (di_basic d)),
       di_tasks := Copied (read_tasks s (di_tasks d)),
       di_errors := Copied (read_errors s (di_errors d)),
       di_statistics := Copied (read_statistics s (di_statistics d)),
       di_command_performance := Copied (read_performance s (di_command_performance d)),
       di_event_performance := Copied (read_performance s (di_event_performance d)),
       di_task_performance := Copied (read_performance s (di_task_performance d))\<rparr>"

section \<open>The IPC client\<close>

text \<open>
  A decoded inbound line, or a message to write. An absent key and a JSON \<^verbatim>\<open>null\<close> both
  read as \<open>None\<close> through \<^verbatim>\<open>message.get\<close>, except for \<^verbatim>\<open>'data'\<close>, whose default differs
  from \<^verbatim>\<open>null\<close>: there \<open>None\<close> is the absent key and \<open>Some JNull\<close> is \<^verbatim>\<open>null\<close>. Identifiers
  are strings (\<^verbatim>\<open>pending_requests: Dict[str, Future]\<close>).
\<close>

record message =
  m_id :: "string option"
  m_type :: "string option"
  m_action :: "string option"
  m_data :: "json option"
  m_error :: "string option"
  m_timestamp :: "real option"

text \<open>
  An \<^verbatim>\<open>asyncio.Future\<close>. The registry holds the future object, and so does the caller
  that awaits it: futures live in a store indexed by handles, \<open>next_future\<close> is the next
  unused handle. Setting a result or an exception on a future that is done raises.
\<close>

datatype future = Unsettled | Result json | Raised py_exception

datatype log_level = Debug | Info | Warn | Error

text \<open>
  The lines the client writes to standard error, by their place in the source, with the
  values they interpolate (elapsed times are left out). \<^verbatim>\<open>_log_info\<close> writes at \<open>Info\<close>
  and \<^verbatim>\<open>_log_error\<close> at \<open>Error\<close>; the class has no other log function.
\<close>

datatype log_line =
    Processing_message "string option" "string option"  \<comment> \<open>type, id\<close>
  | Unknown_message_type "string option"
  | Request_without_id
  | Request_started "string option" string  \<comment> \<open>action, id\<close>
  | Request_finished "string option" string
  | Request_failed "string option" string
  | Unknown_request "string option" string
  | Event_handler_failed string
  | Read_failed string

datatype task = Handle_request message | Handle_event message

type_synonym ipc_handler = "json \<Rightarrow> py_exception + json"

record ipc =
  pending_requests :: "(string \<times> nat) list"
  futures :: "nat \<Rightarrow> future"
  next_future :: nat
  ipc_event_handlers :: "(string \<times> ipc_handler) list"
  running :: bool
  stdout :: "message list"                  \<comment> \<open>lines written by \<^verbatim>\<open>_send\<close>\<close>
  stderr :: "(log_level \<times> log_line) list"
  tasks :: "task list"                      \<comment> \<open>created by \<^verbatim>\<open>asyncio.create_task\<close>, not yet run\<close>
  invoked :: "(string \<times> json) list"         \<comment> \<open>calls made to registered handlers: key, argument\<close>

definition ipc_init :: ipc where
  "ipc_init = \<lparr>pending_requests = [], futures = (\<lambda>_. Unsettled), next_future = 0,
               ipc_event_handlers = [], running = False, stdout = [], stderr = [],
               tasks = [], invoked = []\<rparr>"

definition log_info :: "log_line \<Rightarrow> ipc \<Rightarrow> ipc" where
  "log_info l s = s\<lparr>stderr := stderr s @ [(Info, l)]\<rparr>"

definition log_error :: "log_line \<Rightarrow> ipc \<Rightarrow> ipc" where
  "log_error l s = s\<lparr>stderr := stderr s @ [(Error, l)]\<rparr>"

definition send :: "message \<Rightarrow> ipc \<Rightarrow> ipc" where
  "send message s = s\<lparr>stdout := stdout s @ [message]\<rparr>"

definition send_response_sync :: "string \<Rightarrow> json \<Rightarrow> real \<Rightarrow> ipc \<Rightarrow> ipc" where
  "send_response_sync msg_id data now s =
     send \<lparr>m_id = Some msg_id, m_type = Some ''response'', m_action = None,
           m_data = Some data, m_error = None, m_timestamp = Some now\<rparr> s"

definition send_error_sync :: "string \<Rightarrow> string \<Rightarrow> real \<Rightarrow> ipc \<Rightarrow> ipc" where
  "send_error_sync msg_id error now s =
     send \<lparr>m_id = Some msg_id, m_type = Some ''response'', m_action = None,
           m_data = None, m_error = Some error, m_timestamp = Some now\<rparr> s"

definition on_request :: "string \<Rightarrow> ipc_handler \<Rightarrow> ipc \<Rightarrow> ipc" where
  "on_request action handler s =
     s\<lparr>ipc_event_handlers := AList.update (''request:'' @ action) handler
                                (ipc_event_handlers s)\<rparr>"

definition on_event :: "string \<Rightarrow> ipc_handler \<Rightarrow> ipc \<Rightarrow> ipc" where
  "on_event action handler s =
     s\<lparr>ipc_event_handlers := AList.update (''event:'' @ action) handler
                                (ipc_event_handlers s)\<rparr>"

text \<open>An optional string inside an f-string: \<^verbatim>\<open>None\<close> prints as its name.\<close>

fun fmt :: "string option \<Rightarrow> string" where
  "fmt None = ''None''"
| "fmt (Some a) = a"

text \<open>\<^verbatim>\<open>future.set_result\<close> and \<^verbatim>\<open>future.set_exception\<close>.\<close>

definition settle :: "nat \<Rightarrow> future \<Rightarrow> ipc \<Rightarrow> (py_exception + unit) \<times> ipc" where
  "settle fid outcome s =
     (if futures s fid = Unsettled
      then (Inr (), s\<lparr>futures := (futures s)(fid := outcome)\<rparr>)
      else (Inl (InvalidStateError ''invalid state''), s))"

text \<open>
  \<^verbatim>\<open>_handle_message\<close>. A response whose id is empty or not in the registry falls through
  the \<^verbatim>\<open>if\<close> with nothing done. A request or an event becomes a task.
\<close>

definition handle_message :: "message \<Rightarrow> ipc \<Rightarrow> (py_exception + unit) \<times> ipc" where
  "handle_message message s =
     (let msg_type = m_type message;
          msg_id = m_id message;
          s1 = log_info (Processing_message msg_type msg_id) s
      in if msg_type = Some ''response'' then
           (case msg_id of
              None \<Rightarrow> (Inr (), s1)
            | Some i \<Rightarrow>
                (if i \<noteq> [] then
                   (case map_of (pending_requests s1) i of
                      None \<Rightarrow> (Inr (), s1)
                    | Some fid \<Rightarrow>
                        (let s2 = s1\<lparr>pending_requests := AList.delete i (pending_requests s1)\<rparr>
                         in case m_error message of
                              None \<Rightarrow>
                                settle fid (Result (case m_data message of
                                                      None \<Rightarrow> JNull | Some d \<Rightarrow> d)) s2
                            | Some e \<Rightarrow>
                                if e \<noteq> [] then settle fid (Raised (Exception e)) s2
                                else settle fid (Result (case m_data message of
                                                           None \<Rightarrow> JNull | Some d \<Rightarrow> d)) s2))
                 else (Inr (), s1)))
         else if msg_type = Some ''request'' then
           (Inr (), s1\<lparr>tasks := tasks s1 @ [Handle_request message]\<rparr>)
         else if msg_type = Some ''event'' then
           (Inr (), s1\<lparr>tasks := tasks s1 @ [Handle_event message]\<rparr>)
         else (Inr (), log_error (Unknown_message_type msg_type) s1))"

text \<open>
  One turn of \<^verbatim>\<open>_read_messages\<close> on a decoded line: a failure of \<^verbatim>\<open>_handle_message\<close> is
  caught and logged.
\<close>

definition read_message :: "message \<Rightarrow> ipc \<Rightarrow> ipc" where
  "read_message message s =
     (case handle_message message s of
        (Inr u, s1) \<Rightarrow> s1
      | (Inl error, s1) \<Rightarrow> log_error (Read_failed (str_of error)) s1)"

text \<open>
  \<^verbatim>\<open>_handle_request\<close>. \<^verbatim>\<open>not msg_id\<close> holds for a missing id and for the empty string.
\<close>

definition handle_request :: "message \<Rightarrow> real \<Rightarrow> ipc \<Rightarrow> ipc" where
  "handle_request message now s =
     (let action = m_action message;
          data = (case m_data message of None \<Rightarrow> JObj [] | Some d \<Rightarrow> d)
      in case m_id message of
           None \<Rightarrow> log_error Request_without_id s
         | Some msg_id \<Rightarrow>
             if msg_id = [] then log_error Request_without_id s
             else
               (case map_of (ipc_event_handlers s) (''request:'' @ fmt action) of
                  Some handler \<Rightarrow>
                    (let s1 = log_info (Request_started action msg_id) s;
                         s2 = s1\<lparr>invoked := invoked s1 @ [(''request:'' @ fmt action, data)]\<rparr>
                     in case handler data of
                          Inr result \<Rightarrow>
                            send_response_sync msg_id result now
                              (log_info (Request_finished action msg_id) s2)
                        | Inl error \<Rightarrow>
                            send_error_sync msg_id (str_of error) now
                              (log_error (Request_failed action msg_id) s2))
                | None \<Rightarrow>
                    send_error_sync msg_id (''Unknown action: '' @ fmt action) now
                      (log_error (Unknown_request action msg_id) s)))"

text \<open>\<^verbatim>\<open>_handle_event\<close>.\<close>

definition handle_event :: "message \<Rightarrow> ipc \<Rightarrow> ipc" where
  "handle_event message s =
     (let action = m_action message;
          data = (case m_data message of None \<Rightarrow> JObj [] | Some d \<Rightarrow> d)
      in case map_of (ipc_event_handlers s) (''event:'' @ fmt action) of
           Some handler \<Rightarrow>
             (let s1 = s\<lparr>invoked := invoked s @ [(''event:'' @ fmt action, data)]\<rparr>
              in case handler data of
                   Inr result \<Rightarrow> s1
                 | Inl error \<Rightarrow> log_error (Event_handler_failed (str_of error)) s1)
         | None \<Rightarrow> s)"

fun run_task :: "task \<Rightarrow> real \<Rightarrow> ipc \<Rightarrow> ipc" where
  "run_task (Handle_request message) now s = handle_request message now s"
| "run_task (Handle_event message) now s = handle_event message s"

text \<open>
  \<^verbatim>\<open>send_request\<close>, in the three parts its one \<^verbatim>\<open>await\<close> cuts it into. \<open>msg_id\<close> is the
  value of \<^verbatim>\<open>_generate_id()\<close>. Up to the \<^verbatim>\<open>await\<close>: a future is created and stored under
  the id, and the request is written.
\<close>

definition send_request_begin ::
  "string \<Rightarrow> string \<Rightarrow> json option \<Rightarrow> real \<Rightarrow> ipc \<Rightarrow> nat \<times> ipc" where
  "send_request_begin msg_id action data now s =
     (let message = \<lparr>m_id = Some msg_id, m_type = Some ''request'', m_action = Some action,
                      m_data = Some (case data of
                                       None \<Rightarrow> JObj []
                                     | Some d \<Rightarrow> if truthy d then d else JObj []),
                      m_error = None, m_timestamp = Some now\<rparr>;
          fid = next_future s;
          s1 = s\<lparr>futures := (futures s)(fid := Unsettled), next_future := Suc fid\<rparr>;
          s2 = s1\<lparr>pending_requests := AList.update msg_id fid (pending_requests s1)\<rparr>
      in (fid, send message s2))"

text \<open>
  During \<^verbatim>\<open>asyncio.wait_for(future, timeout)\<close> the read loop handles the lines that
  arrive; \<open>inbound\<close> is what arrives before the deadline. The wait ends as soon as the
  future is settled, and at the deadline otherwise. Tasks created meanwhile stay
  queued.
\<close>

fun await_future :: "nat \<Rightarrow> message list \<Rightarrow> ipc \<Rightarrow> ipc" where
  "await_future fid [] s = s"
| "await_future fid (m # ms) s =
     (if futures s fid \<noteq> Unsettled then s else await_future fid ms (read_message m s))"

text \<open>
  After the wait: the future's result, its exception, or at the deadline the
  \<^verbatim>\<open>except asyncio.TimeoutError\<close> branch, which removes the entry and raises.
\<close>

definition send_request_end ::
  "string \<Rightarrow> string \<Rightarrow> nat \<Rightarrow> ipc \<Rightarrow> (py_exception + json) \<times> ipc" where
  "send_request_end msg_id action fid s =
     (case futures s fid of
        Result r \<Rightarrow> (Inr r, s)
      | Raised error \<Rightarrow> (Inl error, s)
      | Unsettled \<Rightarrow>
          (Inl (Exception (''Request timeout: '' @ action)),
           s\<lparr>pending_requests := AList.delete msg_id (pending_requests s)\<rparr>))"

definition send_request ::
  "string \<Rightarrow> string \<Rightarrow> json option \<Rightarrow> real \<Rightarrow> message list \<Rightarrow> ipc
     \<Rightarrow> (py_exception + json) \<times> ipc" where
  "send_request msg_id action data now inbound s =
     (case send_request_begin msg_id action data now s of
        (fid, s1) \<Rightarrow> send_request_end msg_id action fid (await_future fid inbound s1))"

text \<open>Calls of \<^verbatim>\<open>send_request\<close> one after the other.\<close>

record call =
  c_id :: string
  c_action :: string
  c_data :: "json option"
  c_now :: real
  c_inbound :: "message list"

fun send_requests :: "call list \<Rightarrow> ipc \<Rightarrow> (py_exception + json) list \<times> ipc" where
  "send_requests [] s = ([], s)"
| "send_requests (c # cs) s =
     (case send_request (c_id c) (c_action c) (c_data c) (c_now c) (c_inbound c) s of
        (r, s1) \<Rightarrow> (case send_requests cs s1 of (rs, s2) \<Rightarrow> (r # rs, s2)))"

section \<open>Invariants and sample inputs\<close>

text \<open>
  What every operation keeps true of a stored performance record: it has at least one
  execution, its average is the quotient of its totals, its executions split into successes
  and failures, and its window has at most 20 samples.
\<close>

definition perf_ok :: "perf \<Rightarrow> bool" where
  "perf_ok p \<longleftrightarrow>
     1 \<le> total_executions p
     \<and> avg_duration p = total_duration p / of_int (total_executions p)
     \<and> total_executions p = successful_executions p + failed_executions p
     \<and> length (last_executions p) \<le> 20"

definition perfs_ok :: "(string \<times> perf) list \<Rightarrow> bool" where
  "perfs_ok m \<longleftrightarrow> list_all (\<lambda>kv. perf_ok (snd kv)) m"

text \<open>The bounded error log and the three performance dictionaries of a plugin.\<close>

definition plugin_ok :: "plugin \<Rightarrow> bool" where
  "plugin_ok s \<longleftrightarrow>
     length (errors s) \<le> 100
     \<and> perfs_ok (command_performance s)
     \<and> perfs_ok (event_performance s)
     \<and> perfs_ok (task_performance s)"

text \<open>
  Every future in the registry was created before: its handle is below \<open>next_future\<close>.
\<close>

definition ipc_wf :: "ipc \<Rightarrow> bool" where
  "ipc_wf s \<longleftrightarrow> list_all (\<lambda>kv. snd kv < next_future s) (pending_requests s)"

text \<open>
  No line that arrives while a request waits is a response bearing the request's id; a call
  for which this holds runs into its deadline.
\<close>

definition no_matching_response :: "string \<Rightarrow> message list \<Rightarrow> bool" where
  "no_matching_response msg_id inbound \<longleftrightarrow>
     list_all (\<lambda>m. \<not> (m_type m = Some ''response'' \<and> m_id m = Some msg_id)) inbound"

definition times_out :: "call \<Rightarrow> bool" where
  "times_out c \<longleftrightarrow> no_matching_response (c_id c) (c_inbound c)"

text \<open>A message whose id is missing or has no entry in the registry.\<close>

definition unmatched :: "message \<Rightarrow> ipc \<Rightarrow> bool" where
  "unmatched m s \<longleftrightarrow>
     (case m_id m of None \<Rightarrow> True | Some i \<Rightarrow> map_of (pending_requests s) i = None)"

text \<open>
  The registry refers to the future \<open>fid\<close> under the id \<open>msg_id\<close> only, and the future is
  not settled.
\<close>

definition owned :: "string \<Rightarrow> nat \<Rightarrow> ipc \<Rightarrow> bool" where
  "owned msg_id fid s \<longleftrightarrow>
     list_all (\<lambda>kv. snd kv \<noteq> fid \<or> fst kv = msg_id) (pending_requests s)
     \<and> futures s fid = Unsettled"

text \<open>Sample handlers, readings, states and messages.\<close>

definition returning_command :: command_handler where
  "returning_command event args = None"

definition failing_command :: command_handler where
  "failing_command event args = Some (Exception ''boom'')"

definition returning_event :: event_handler where
  "returning_event event = None"

definition returning_task :: task_handler where
  "returning_task u = None"

definition env0 :: env where
  "env0 = \<lparr>now_activity = 10, now_executed = 10, t_start = 10, t_error = 11, stack = ''trace'',
           t_end = 12, t_sample = 12\<rparr>"

definition demo :: plugin where
  "demo = init ''demo'' None 0"

definition after_error :: plugin where
  "after_error = record_error ''command'' ''x'' (Exception ''boom'') ''trace'' 1 demo"

definition stray_response :: message where
  "stray_response = \<lparr>m_id = Some ''gone'', m_type = Some ''response'', m_action = None,
                      m_data = Some (JStr ''late''), m_error = None, m_timestamp = Some 5\<rparr>"

definition one_pending :: ipc where
  "one_pending = ipc_init\<lparr>pending_requests := [(''abc'', 0)], next_future := 1\<rparr>"

definition two_calls :: "call list" where
  "two_calls =
     [\<lparr>c_id = ''id-1'', c_action = ''callApi'', c_data = None, c_now = 1,
       c_inbound = [stray_response]\<rparr>,
      \<lparr>c_id = ''id-2'', c_action = ''notify'', c_data = Some (JObj []), c_now = 2,
       c_inbound = []\<rparr>]"

definition info_handler :: ipc_handler where
  "info_handler data = Inr (JObj [])"

definition request_without_id :: message where
  "request_without_id = \<lparr>m_id = None, m_type = Some ''request'', m_action = Some ''getInfo'',
                          m_data = None, m_error = None, m_timestamp = Some 5\<rparr>"

section \<open>The error log and the performance records\<close>

lemma perf_ok_add_sample:
  "p = new_perf \<or> perf_ok p \<Longrightarrow> perf_ok (add_sample d ok now p)"
  by (auto simp: perf_ok_def new_perf_def add_sample_def Let_def)

lemma perfs_ok_update: "perfs_ok m \<Longrightarrow> perf_ok v \<Longrightarrow> perfs_ok (AList.update k v m)"
  by (induction m) (auto simp: perfs_ok_def)

lemma perfs_ok_lookup: "perfs_ok m \<Longrightarrow> map_of m k = Some p \<Longrightarrow> perf_ok p"
  using map_of_SomeD [of m k p] by (fastforce simp: perfs_ok_def list_all_iff)

lemma perfs_ok_perf_map: "plugin_ok s \<Longrightarrow> perfs_ok (perf_map sl s)"
  by (cases sl) (simp_all add: plugin_ok_def)

lemma plugin_ok_set_perf_map:
  "plugin_ok s \<Longrightarrow> perfs_ok m \<Longrightarrow> plugin_ok (set_perf_map sl m s)"
  by (cases sl) (simp_all add: plugin_ok_def)

lemma plugin_ok_record_performance_internal:
  assumes "plugin_ok s"
  shows "plugin_ok (record_performance_internal t n d ok now s)"
proof (cases "d < 0")
  case True
  with assms show ?thesis by (simp add: record_performance_internal_def)
next
  case False
  let ?m = "perf_map (select_slot t) s"
  let ?p0 = "case map_of ?m n of None \<Rightarrow> new_perf | Some p \<Rightarrow> p"
  have m: "perfs_ok ?m" using assms by (rule perfs_ok_perf_map)
  have "?p0 = new_perf \<or> perf_ok ?p0"
    using m by (auto split: option.splits dest: perfs_ok_lookup)
  then have "perf_ok (add_sample d ok now ?p0)" by (rule perf_ok_add_sample)
  with m have "perfs_ok (AList.update n (add_sample d ok now ?p0) ?m)"
    by (rule perfs_ok_update)
  with assms False show ?thesis
    by (simp add: record_performance_internal_def Let_def plugin_ok_set_perf_map)
qed

lemma plugin_ok_record_error_internal:
  "plugin_ok s \<Longrightarrow> plugin_ok (record_error_internal t src e tr now s)"
  by (simp add: plugin_ok_def record_error_internal_def Let_def)

lemma plugin_ok_command_enter: "plugin_ok (command_enter env s) = plugin_ok s"
  by (simp add: plugin_ok_def command_enter_def Let_def)

lemma plugin_ok_event_enter: "plugin_ok (event_enter env s) = plugin_ok s"
  by (simp add: plugin_ok_def event_enter_def Let_def)

lemma plugin_ok_task_enter: "plugin_ok (task_enter n env s) = plugin_ok s"
  by (simp add: plugin_ok_def task_enter_def Let_def split: option.splits)

lemma plugin_ok_send_error_notice: "plugin_ok (send_error_notice c e ev s) = plugin_ok s"
  by (simp add: plugin_ok_def send_error_notice_def)

lemma plugin_ok_wrapper_finally:
  assumes "plugin_ok s"
  shows "plugin_ok (wrapper_finally t n ok env s)"
proof -
  have "plugin_ok (s\<lparr>concurrent_operations := concurrent_operations s - 1\<rparr>)"
    using assms by (simp add: plugin_ok_def)
  then show ?thesis
    by (simp add: wrapper_finally_def Let_def plugin_ok_record_performance_internal)
qed

lemma plugin_ok_wrapped_command_handler:
  "plugin_ok s \<Longrightarrow> plugin_ok (snd (wrapped_command_handler c h env ev args s))"
  by (simp add: wrapped_command_handler_def Let_def plugin_ok_wrapper_finally
      plugin_ok_command_enter plugin_ok_send_error_notice plugin_ok_record_error_internal
      split: option.splits)

lemma plugin_ok_wrapped_event_handler:
  "plugin_ok s \<Longrightarrow> plugin_ok (snd (wrapped_event_handler t h env ev s))"
  by (simp add: wrapped_event_handler_def Let_def plugin_ok_wrapper_finally
      plugin_ok_event_enter plugin_ok_record_error_internal split: option.splits)

lemma plugin_ok_wrapped_task_handler:
  "plugin_ok s \<Longrightarrow> plugin_ok (snd (wrapped_task_handler n h env s))"
  by (simp add: wrapped_task_handler_def Let_def record_error_def
      plugin_ok_task_enter plugin_ok_record_error_internal split: option.splits)

text \<open>The command wrapper never raises: its \<^verbatim>\<open>except\<close> branch ends without \<^verbatim>\<open>raise\<close>.\<close>

lemma fst_wrapped_command_handler: "fst (wrapped_command_handler c h env ev args s) = Inr ()"
  by (simp add: wrapped_command_handler_def Let_def split: option.splits)

lemma plugin_ok_dispatch_command:
  assumes "plugin_ok s"
  shows "plugin_ok (snd (dispatch_command c ev args denv env s))"
proof (cases "map_of (command_handlers s) c")
  case None
  with assms show ?thesis by (simp add: dispatch_command_def)
next
  case (Some h)
  let ?s2 = "s\<lparr>last_activity := now_activity denv,
               statistics := (statistics s)\<lparr>command_executions :=
                  command_executions (statistics s) + 1\<rparr>\<rparr>"
  let ?r = "wrapped_command_handler c h env ev (case args of None \<Rightarrow> [] | Some a \<Rightarrow> a) ?s2"
  have "plugin_ok ?s2" using assms by (simp add: plugin_ok_def)
  then have ok: "plugin_ok (snd ?r)" by (rule plugin_ok_wrapped_command_handler)
  have "fst ?r = Inr ()" by (rule fst_wrapped_command_handler)
  then obtain s3 where r: "?r = (Inr (), s3)" by (cases ?r) auto
  with ok have "plugin_ok s3" by simp
  with Some r show ?thesis by (simp add: dispatch_command_def Let_def)
qed

lemma plugin_ok_dispatch_event_loop:
  "plugin_ok s \<Longrightarrow> plugin_ok (dispatch_event_loop t hs envs ev s)"
  by (induction hs arbitrary: envs s) (simp_all add: plugin_ok_wrapped_event_handler)

lemma plugin_ok_exec_op: "plugin_ok s \<Longrightarrow> plugin_ok (exec_op x s)"
proof (cases x)
  case (Op_register_command c h opts)
  then show "plugin_ok s \<Longrightarrow> ?thesis" by (simp add: register_command_def plugin_ok_def)
next
  case (Op_register_event t h)
  then show "plugin_ok s \<Longrightarrow> ?thesis" by (simp add: register_event_def plugin_ok_def Let_def)
next
  case (Op_schedule n c h reply)
  then show "plugin_ok s \<Longrightarrow> ?thesis"
    by (simp add: schedule_def plugin_ok_def Let_def split: option.splits)
next
  case (Op_dispatch_command c ev args denv env)
  then show "plugin_ok s \<Longrightarrow> ?thesis" by (simp add: plugin_ok_dispatch_command)
next
  case (Op_dispatch_event t ev envs)
  then show "plugin_ok s \<Longrightarrow> ?thesis"
    by (simp add: dispatch_event_def plugin_ok_dispatch_event_loop split: option.splits)
next
  case (Op_dispatch_task n env)
  then show "plugin_ok s \<Longrightarrow> ?thesis"
    by (simp add: dispatch_task_def plugin_ok_wrapped_task_handler split: option.splits)
next
  case (Op_record_error t src e tr now)
  then show "plugin_ok s \<Longrightarrow> ?thesis"
    by (simp add: record_error_def plugin_ok_record_error_internal)
next
  case (Op_record_performance t n d ok now)
  then show "plugin_ok s \<Longrightarrow> ?thesis"
    by (simp add: record_performance_def plugin_ok_record_performance_internal)
next
  case Op_on_enable
  then show "plugin_ok s \<Longrightarrow> ?thesis" by (simp add: plugin_ok_def)
next
  case Op_on_disable
  then show "plugin_ok s \<Longrightarrow> ?thesis" by (simp add: plugin_ok_def)
qed

lemma plugin_ok_foldl:
  "plugin_ok s \<Longrightarrow> plugin_ok (foldl (\<lambda>st x. exec_op x st) s ops)"
  by (induction ops arbitrary: s) (simp_all add: plugin_ok_exec_op)

lemma plugin_ok_init: "plugin_ok (init pid pname t0)"
  by (simp add: plugin_ok_def perfs_ok_def init_def)

lemma plugin_ok_run: "plugin_ok (run ops (init pid pname t0))"
  by (simp add: run_def plugin_ok_foldl plugin_ok_init)

text \<open>What one recording does to the log and to a window.\<close>

lemma errors_record_error_internal:
  "errors (record_error_internal ty src e tr now s) =
     (if length (errors s) < 100 then errors s else tl (errors s)) @
     [\<lparr>e_type = ty, e_source = src, e_message = str_of e, e_stack = tr,
       e_timestamp = now * 1000, e_plugin_id = info_id s,
       e_plugin_name = (case info_name s of Some n \<Rightarrow> n | None \<Rightarrow> info_id s)\<rparr>]"
  by (cases "errors s") (simp_all add: record_error_internal_def Let_def)

lemma last_executions_add_sample:
  "last_executions (add_sample d ok now q) =
     (if length (last_executions q) < 20 then last_executions q else tl (last_executions q)) @
     [\<lparr>sm_timestamp = now * 1000, sm_duration = d, sm_success = ok\<rparr>]"
  by (cases "last_executions q") (simp_all add: add_sample_def Let_def)

lemma perf_map_set_perf_map: "perf_map sl (set_perf_map sl m s) = m"
  by (cases sl) simp_all

lemma lookup_record_performance_internal:
  "0 \<le> d \<Longrightarrow>
     map_of (perf_map (select_slot ty) (record_performance_internal ty name d ok now s)) name
       = Some (add_sample d ok now
                (case map_of (perf_map (select_slot ty) s) name of
                   None \<Rightarrow> new_perf | Some q \<Rightarrow> q))"
  by (simp add: record_performance_internal_def Let_def perf_map_set_perf_map
      AList.update_conv')

section \<open>The concurrency counter\<close>

lemma conc_set_perf_map: "concurrent_operations (set_perf_map sl m s) = concurrent_operations s"
  by (cases sl) simp_all

lemma conc_record_performance_internal:
  "concurrent_operations (record_performance_internal t n d ok now s) = concurrent_operations s"
  by (simp add: record_performance_internal_def Let_def conc_set_perf_map)

lemma conc_record_error_internal:
  "concurrent_operations (record_error_internal t src e tr now s) = concurrent_operations s"
  by (simp add: record_error_internal_def Let_def)

lemma conc_command_enter:
  "concurrent_operations (command_enter env s) = concurrent_operations s + 1"
  by (simp add: command_enter_def Let_def)

lemma conc_event_enter:
  "concurrent_operations (event_enter env s) = concurrent_operations s + 1"
  by (simp add: event_enter_def Let_def)

lemma conc_task_enter:
  "concurrent_operations (task_enter n env s) = concurrent_operations s"
  by (simp add: task_enter_def Let_def split: option.splits)

lemma conc_wrapper_finally:
  "concurrent_operations (wrapper_finally t n ok env s) = concurrent_operations s - 1"
  by (simp add: wrapper_finally_def Let_def conc_record_performance_internal)

lemma conc_wrapped_command_handler:
  "concurrent_operations (snd (wrapped_command_handler c h env ev args s))
     = concurrent_operations s"
  by (simp add: wrapped_command_handler_def Let_def conc_wrapper_finally conc_command_enter
      conc_record_error_internal send_error_notice_def split: option.splits)

lemma conc_wrapped_event_handler:
  "concurrent_operations (snd (wrapped_event_handler t h env ev s)) = concurrent_operations s"
  by (simp add: wrapped_event_handler_def Let_def conc_wrapper_finally conc_event_enter
      conc_record_error_internal split: option.splits)

lemma conc_wrapped_task_handler:
  "concurrent_operations (snd (wrapped_task_handler n h env s)) = concurrent_operations s"
  by (simp add: wrapped_task_handler_def Let_def conc_task_enter record_error_def
      conc_record_error_internal split: option.splits)

lemma conc_dispatch_command:
  "concurrent_operations (snd (dispatch_command c ev args denv env s)) = concurrent_operations s"
proof (cases "map_of (command_handlers s) c")
  case None
  then show ?thesis by (simp add: dispatch_command_def)
next
  case (Some h)
  let ?s2 = "s\<lparr>last_activity := now_activity denv,
               statistics := (statistics s)\<lparr>command_executions :=
                  command_executions (statistics s) + 1\<rparr>\<rparr>"
  let ?r = "wrapped_command_handler c h env ev (case args of None \<Rightarrow> [] | Some a \<Rightarrow> a) ?s2"
  have c: "concurrent_operations (snd ?r) = concurrent_operations ?s2"
    by (rule conc_wrapped_command_handler)
  have "fst ?r = Inr ()" by (rule fst_wrapped_command_handler)
  then obtain s3 where r: "?r = (Inr (), s3)" by (cases ?r) auto
  with c have "concurrent_operations s3 = concurrent_operations s" by simp
  with Some r show ?thesis by (simp add: dispatch_command_def Let_def)
qed

lemma conc_dispatch_event_loop:
  "concurrent_operations (dispatch_event_loop t hs envs ev s) = concurrent_operations s"
  by (induction hs arbitrary: envs s) (simp_all add: conc_wrapped_event_handler)

lemma conc_exec_op: "concurrent_operations (exec_op x s) = concurrent_operations s"
  by (cases x)
    (simp_all add: register_command_def register_event_def schedule_def Let_def
      conc_dispatch_command dispatch_event_def conc_dispatch_event_loop dispatch_task_def
      conc_wrapped_task_handler record_error_def conc_record_error_internal
      record_performance_def conc_record_performance_internal split: option.splits)

lemma conc_foldl:
  "concurrent_operations (foldl (\<lambda>st x. exec_op x st) s ops) = concurrent_operations s"
  by (induction ops arbitrary: s) (simp_all add: conc_exec_op)

lemma conc_run: "concurrent_operations (run ops (init pid pname t0)) = 0"
  by (simp add: run_def conc_foldl init_def)

text \<open>
  Under any schedule the counter moves with the number of suspended command and event
  wrappers: each step changes both by the same amount.
\<close>

lemma in_flight_append:
  "in_flight (fs @ [f]) = in_flight fs + (if tracked f then 1 else 0)"
  by (simp add: in_flight_def)

lemma in_flight_split:
  assumes "i < length fs"
  shows "in_flight fs
           = in_flight (take i fs) + (if tracked (fs ! i) then 1 else 0)
             + in_flight (drop (Suc i) fs)"
proof -
  have "filter tracked fs = filter tracked (take i fs @ fs ! i # drop (Suc i) fs)"
    using arg_cong [OF id_take_nth_drop [OF assms], of "filter tracked"] .
  then show ?thesis by (simp add: in_flight_def)
qed

lemma in_flight_drop_frame:
  "i < length fs \<Longrightarrow>
     in_flight (drop_frame i fs) = in_flight fs - (if tracked (fs ! i) then 1 else 0)"
  using in_flight_split [of i fs] by (simp add: in_flight_def drop_frame_def)

lemma in_flight_update:
  assumes "i < length fs" and "tracked g = tracked (fs ! i)"
  shows "in_flight (fs[i := g]) = in_flight fs"
proof -
  from assms(1) have "fs[i := g] = take i fs @ g # drop (Suc i) fs"
    by (rule upd_conv_take_nth_drop)
  then have "in_flight (fs[i := g])
               = in_flight (take i fs) + (if tracked g then 1 else 0)
                 + in_flight (drop (Suc i) fs)"
    by (simp add: in_flight_def)
  with assms in_flight_split [of i fs] show ?thesis by simp
qed

lemma conc_send_error_notice:
  "concurrent_operations (send_error_notice c e ev s) = concurrent_operations s"
  by (simp add: send_error_notice_def)

lemma return_frame_balance:
  assumes "i < length fs" and "return_frame i outcome env (s, fs) = (s', fs')"
  shows "concurrent_operations s' - in_flight fs' = concurrent_operations s - in_flight fs"
proof (cases "fr_kind (fs ! i)")
  case Command_kind
  then have t: "tracked (fs ! i)" by (simp add: tracked_def)
  show ?thesis
  proof (cases outcome)
    case None
    with Command_kind assms(2) have "s' = wrapper_finally ''command'' (fr_name (fs ! i)) True
        (env\<lparr>t_start := fr_start (fs ! i)\<rparr>) s" and "fs' = drop_frame i fs"
      by (simp_all add: return_frame_def Let_def)
    with t assms(1) show ?thesis by (simp add: conc_wrapper_finally in_flight_drop_frame)
  next
    case (Some error)
    with Command_kind assms(2)
    have "s' = send_error_notice (fr_name (fs ! i)) error (fr_event (fs ! i))
                 (record_error_internal ''command'' (fr_name (fs ! i)) error (stack env)
                    (t_error env) s)"
      and f: "fs' = fs[i := (fs ! i)\<lparr>fr_stage := Awaiting_notice\<rparr>]"
      by (simp_all add: return_frame_def Let_def)
    then have "concurrent_operations s' = concurrent_operations s"
      by (simp add: conc_send_error_notice conc_record_error_internal)
    moreover have "in_flight fs' = in_flight fs"
      unfolding f using assms(1) by (rule in_flight_update) (simp add: tracked_def)
    ultimately show ?thesis by simp
  qed
next
  case Event_kind
  then have t: "tracked (fs ! i)" by (simp add: tracked_def)
  from Event_kind assms(2) have f: "fs' = drop_frame i fs"
    by (cases outcome) (simp_all add: return_frame_def Let_def)
  from Event_kind assms(2) have "concurrent_operations s' = concurrent_operations s - 1"
    by (cases outcome)
      (auto simp: return_frame_def Let_def conc_wrapper_finally conc_record_error_internal)
  with f t assms(1) show ?thesis by (simp add: in_flight_drop_frame)
next
  case Task_kind
  then have t: "\<not> tracked (fs ! i)" by (simp add: tracked_def)
  from Task_kind assms(2) have f: "fs' = drop_frame i fs"
    by (cases outcome) (simp_all add: return_frame_def Let_def)
  from Task_kind assms(2) have "concurrent_operations s' = concurrent_operations s"
    by (cases outcome)
      (auto simp: return_frame_def Let_def record_error_def conc_record_error_internal)
  with f t assms(1) show ?thesis by (simp add: in_flight_drop_frame)
qed

lemma step_balance:
  assumes "step x (s, fs) = Some (s', fs')"
  shows "concurrent_operations s' - in_flight fs' = concurrent_operations s - in_flight fs"
proof (cases x)
  case (Call_command name event env)
  with assms show ?thesis
    by (auto simp: conc_command_enter in_flight_append tracked_def new_frame_def)
next
  case (Call_event name event env)
  with assms show ?thesis
    by (auto simp: conc_event_enter in_flight_append tracked_def new_frame_def)
next
  case (Call_task name env)
  with assms show ?thesis
    by (auto simp: conc_task_enter in_flight_append tracked_def new_frame_def)
next
  case (Return i outcome env)
  with assms have i: "i < length fs" and r: "return_frame i outcome env (s, fs) = (s', fs')"
    by (simp_all split: if_splits)
  then show ?thesis by (rule return_frame_balance)
next
  case (Notice_done i env)
  with assms have i: "i < length fs" and k: "fr_kind (fs ! i) = Command_kind"
    and s': "s' = wrapper_finally ''command'' (fr_name (fs ! i)) False
                    (env\<lparr>t_start := fr_start (fs ! i)\<rparr>) s"
    and f: "fs' = drop_frame i fs"
    by (simp_all split: if_splits)
  from k have "tracked (fs ! i)" by (simp add: tracked_def)
  with i s' f show ?thesis by (simp add: conc_wrapper_finally in_flight_drop_frame)
next
  case (Atomic op)
  with assms show ?thesis by (auto simp: conc_exec_op)
qed

lemma steps_balance:
  "steps sched (s, fs) = Some (s', fs') \<Longrightarrow>
     concurrent_operations s' - in_flight fs' = concurrent_operations s - in_flight fs"
proof (induction sched arbitrary: s fs)
  case Nil
  then show ?case by simp
next
  case (Cons x xs)
  from Cons.prems obtain s1 fs1 where 1: "step x (s, fs) = Some (s1, fs1)"
    and 2: "steps xs (s1, fs1) = Some (s', fs')"
    by (auto split: option.splits)
  from Cons.IH [OF 2] step_balance [OF 1] show ?case by simp
qed

lemma in_flight_nonneg: "0 \<le> in_flight fs"
  by (simp add: in_flight_def)

text \<open>
  An invocation scheduled with no other step between its pieces is the wrapper run without
  overlap, whatever else is suspended meanwhile.
\<close>

lemma steps_command_alone:
  "steps (Call_command c ev env # Return (length fs) (ch ev args) env #
            (case ch ev args of None \<Rightarrow> [] | Some e \<Rightarrow> [Notice_done (length fs) env])) (s, fs)
     = Some (snd (wrapped_command_handler c ch env ev args s), fs)"
  by (cases "ch ev args")
    (simp_all add: return_frame_def new_frame_def drop_frame_def wrapped_command_handler_def
      Let_def)

lemma steps_event_alone:
  "steps [Call_event t ev env, Return (length fs) (eh ev) env] (s, fs)
     = Some (snd (wrapped_event_handler t eh env ev s), fs)"
  by (cases "eh ev")
    (simp_all add: return_frame_def new_frame_def drop_frame_def wrapped_event_handler_def
      Let_def)

lemma steps_task_alone:
  "steps [Call_task n env, Return (length fs) (th ()) env] (s, fs)
     = Some (snd (wrapped_task_handler n th env s), fs)"
  by (cases "th ()")
    (simp_all add: return_frame_def new_frame_def drop_frame_def wrapped_task_handler_def
      Let_def)

section \<open>What the wrappers return and count\<close>

text \<open>
  On any state: one dispatch of a registered command adds 2 to the command counter and never
  raises; the event and task wrappers raise what their handler raises; the task wrapper
  leaves the performance dictionaries and the high-water mark alone, where the event wrapper
  stores a sample (for a duration that is not negative) and lifts the high-water mark above
  the counter it found.
\<close>

lemma statistics_set_perf_map: "statistics (set_perf_map sl m s) = statistics s"
  by (cases sl) simp_all

lemma statistics_record_performance_internal:
  "statistics (record_performance_internal t n d ok now s) = statistics s"
  by (simp add: record_performance_internal_def Let_def statistics_set_perf_map)

lemma command_executions_wrapped_command_handler:
  "command_executions (statistics (snd (wrapped_command_handler c h env ev args s)))
     = command_executions (statistics s) + 1"
  by (simp add: wrapped_command_handler_def Let_def wrapper_finally_def
      statistics_record_performance_internal command_enter_def send_error_notice_def
      record_error_internal_def split: option.splits)

lemma dispatch_command_adds_two:
  assumes "map_of (command_handlers s) c = Some h"
  shows "fst (dispatch_command c ev args denv env s) = Inr ()"
    and "command_executions (statistics (snd (dispatch_command c ev args denv env s)))
           = command_executions (statistics s) + 2"
proof -
  let ?s2 = "s\<lparr>last_activity := now_activity denv,
               statistics := (statistics s)\<lparr>command_executions :=
                  command_executions (statistics s) + 1\<rparr>\<rparr>"
  let ?r = "wrapped_command_handler c h env ev (case args of None \<Rightarrow> [] | Some a \<Rightarrow> a) ?s2"
  have n: "command_executions (statistics (snd ?r)) = command_executions (statistics ?s2) + 1"
    by (rule command_executions_wrapped_command_handler)
  have "fst ?r = Inr ()" by (rule fst_wrapped_command_handler)
  then obtain s3 where r: "?r = (Inr (), s3)" by (cases ?r) auto
  with n have "command_executions (statistics s3) = command_executions (statistics s) + 2"
    by simp
  with assms r
  show "command_executions (statistics (snd (dispatch_command c ev args denv env s)))
          = command_executions (statistics s) + 2"
    by (simp add: dispatch_command_def Let_def)
  from assms r show "fst (dispatch_command c ev args denv env s) = Inr ()"
    by (simp add: dispatch_command_def Let_def)
qed

lemma fst_wrapped_event_handler:
  "fst (wrapped_event_handler t h env ev s) = (case h ev of None \<Rightarrow> Inr () | Some e \<Rightarrow> Inl e)"
  by (simp add: wrapped_event_handler_def Let_def split: option.splits)

lemma fst_wrapped_task_handler:
  "fst (wrapped_task_handler n h env s) = (case h () of None \<Rightarrow> Inr () | Some e \<Rightarrow> Inl e)"
  by (simp add: wrapped_task_handler_def Let_def split: option.splits)

lemma wrapped_task_handler_untracked:
  "perf_map sl (snd (wrapped_task_handler n h env s)) = perf_map sl s"
  "max_concurrent_operations (snd (wrapped_task_handler n h env s))
     = max_concurrent_operations s"
  by (cases sl)
    (simp_all add: wrapped_task_handler_def Let_def task_enter_def record_error_def
      record_error_internal_def split: option.splits)

lemma event_performance_wrapped_event_handler:
  assumes "t_start env \<le> t_end env"
  shows "map_of (event_performance (snd (wrapped_event_handler t h env ev s))) t
           = Some (add_sample ((t_end env - t_start env) * 1000) (h ev = None) (t_sample env)
                    (case map_of (event_performance s) t of
                       None \<Rightarrow> new_perf | Some q \<Rightarrow> q))"
    and "concurrent_operations s < max_concurrent_operations
           (snd (wrapped_event_handler t h env ev s))"
proof -
  from assms have d: "\<not> (t_end env - t_start env) * 1000 < 0" by simp
  then show "map_of (event_performance (snd (wrapped_event_handler t h env ev s))) t
           = Some (add_sample ((t_end env - t_start env) * 1000) (h ev = None) (t_sample env)
                    (case map_of (event_performance s) t of
                       None \<Rightarrow> new_perf | Some q \<Rightarrow> q))"
    by (simp add: wrapped_event_handler_def Let_def wrapper_finally_def
        record_performance_internal_def select_slot_def event_enter_def
        record_error_internal_def AList.update_conv' split: option.splits)
  from d show "concurrent_operations s < max_concurrent_operations
           (snd (wrapped_event_handler t h env ev s))"
    by (simp add: wrapped_event_handler_def Let_def wrapper_finally_def
        record_performance_internal_def select_slot_def event_enter_def
        record_error_internal_def split: option.splits)
qed

section \<open>The pending-requests registry\<close>

lemma set_delete_subset: "set (AList.delete k al) \<subseteq> set al"
  by (auto simp: AList.delete_eq)

lemma set_update_subset: "set (AList.update k v al) \<subseteq> insert (k, v) (set al)"
  by (induction al) auto

lemma read_message_fields:
  "pending_requests (read_message m s) = pending_requests (snd (handle_message m s))"
  "futures (read_message m s) = futures (snd (handle_message m s))"
  "next_future (read_message m s) = next_future (snd (handle_message m s))"
proof -
  obtain r s1 where h: "handle_message m s = (r, s1)" by (cases "handle_message m s")
  show "pending_requests (read_message m s) = pending_requests (snd (handle_message m s))"
    using h by (cases r) (simp_all add: read_message_def log_error_def)
  show "futures (read_message m s) = futures (snd (handle_message m s))"
    using h by (cases r) (simp_all add: read_message_def log_error_def)
  show "next_future (read_message m s) = next_future (snd (handle_message m s))"
    using h by (cases r) (simp_all add: read_message_def log_error_def)
qed

lemma settle_fields:
  "pending_requests (snd (settle f x s)) = pending_requests s"
  "next_future (snd (settle f x s)) = next_future s"
  "f \<noteq> fid \<Longrightarrow> futures (snd (settle f x s)) fid = futures s fid"
  by (simp_all add: settle_def)

lemma handle_message_matched:
  assumes "m_type m = Some ''response''" and "m_id m = Some i" and "i \<noteq> []"
    and "map_of (pending_requests s) i = Some f"
  shows "\<exists>x. handle_message m s
           = settle f x (s\<lparr>stderr := stderr s @ [(Info, Processing_message (m_type m) (m_id m))],
                          pending_requests := AList.delete i (pending_requests s)\<rparr>)"
proof (cases "m_error m")
  case None
  with assms show ?thesis
    by (simp add: handle_message_def log_info_def Let_def) (rule exI, rule refl)
next
  case (Some e)
  show ?thesis
  proof (cases "e = []")
    case True
    with Some assms show ?thesis
      by (simp add: handle_message_def log_info_def Let_def) (rule exI, rule refl)
  next
    case False
    with Some assms show ?thesis
      by (simp add: handle_message_def log_info_def Let_def) (rule exI, rule refl)
  qed
qed

lemma handle_message_unmatched:
  assumes "\<not> (m_type m = Some ''response'' \<and>
              (\<exists>i. m_id m = Some i \<and> i \<noteq> [] \<and> map_of (pending_requests s) i \<noteq> None))"
  shows "pending_requests (snd (handle_message m s)) = pending_requests s"
    and "futures (snd (handle_message m s)) = futures s"
    and "next_future (snd (handle_message m s)) = next_future s"
    and "fst (handle_message m s) = Inr ()"
proof -
  have "fst (handle_message m s) = Inr ()
        \<and> pending_requests (snd (handle_message m s)) = pending_requests s
        \<and> futures (snd (handle_message m s)) = futures s
        \<and> next_future (snd (handle_message m s)) = next_future s"
  proof (cases "m_type m = Some ''response''")
    case False
    then show ?thesis
      by (simp add: handle_message_def log_info_def log_error_def Let_def)
  next
    case resp: True
    show ?thesis
    proof (cases "m_id m")
      case None
      with resp show ?thesis by (simp add: handle_message_def log_info_def Let_def)
    next
      case (Some i)
      with resp assms have "i = [] \<or> map_of (pending_requests s) i = None" by auto
      with resp Some show ?thesis
        by (cases "i = []") (simp_all add: handle_message_def log_info_def Let_def)
    qed
  qed
  then show "pending_requests (snd (handle_message m s)) = pending_requests s"
    and "futures (snd (handle_message m s)) = futures s"
    and "next_future (snd (handle_message m s)) = next_future s"
    and "fst (handle_message m s) = Inr ()" by simp_all
qed

lemma read_message_owned:
  assumes "owned msg_id fid s"
    and "\<not> (m_type m = Some ''response'' \<and> m_id m = Some msg_id)"
  shows "owned msg_id fid (read_message m s)
         \<and> set (pending_requests (read_message m s)) \<subseteq> set (pending_requests s)
         \<and> next_future (read_message m s) = next_future s"
proof (cases "m_type m = Some ''response'' \<and>
              (\<exists>i. m_id m = Some i \<and> i \<noteq> [] \<and> map_of (pending_requests s) i \<noteq> None)")
  case False
  from handle_message_unmatched(1-3) [OF False] assms(1) show ?thesis
    by (simp add: read_message_fields owned_def)
next
  case True
  then obtain i f where resp: "m_type m = Some ''response''" and i: "m_id m = Some i"
    and ne: "i \<noteq> []" and f: "map_of (pending_requests s) i = Some f" by auto
  from resp i assms(2) have neq: "i \<noteq> msg_id" by simp
  from f have "(i, f) \<in> set (pending_requests s)" by (rule map_of_SomeD)
  with assms(1) neq have ff: "f \<noteq> fid" by (auto simp: owned_def list_all_iff)
  have sub: "set (AList.delete i (pending_requests s)) \<subseteq> set (pending_requests s)"
    by (rule set_delete_subset)
  from assms(1) sub
  have own: "list_all (\<lambda>kv. snd kv \<noteq> fid \<or> fst kv = msg_id)
               (AList.delete i (pending_requests s))"
    by (auto simp: owned_def list_all_iff)
  from assms(1) have u: "futures s fid = Unsettled" by (simp add: owned_def)
  from handle_message_matched [OF resp i ne f] obtain x where
    h: "handle_message m s
          = settle f x (s\<lparr>stderr := stderr s @ [(Info, Processing_message (m_type m) (m_id m))],
                         pending_requests := AList.delete i (pending_requests s)\<rparr>)" ..
  from own u sub ff show ?thesis
    by (simp add: read_message_fields h settle_fields owned_def)
qed

lemma await_future_owned:
  "owned msg_id fid s \<Longrightarrow> no_matching_response msg_id inbound \<Longrightarrow>
     owned msg_id fid (await_future fid inbound s)
     \<and> set (pending_requests (await_future fid inbound s)) \<subseteq> set (pending_requests s)
     \<and> next_future (await_future fid inbound s) = next_future s"
proof (induction inbound arbitrary: s)
  case Nil
  then show ?case by simp
next
  case (Cons m ms)
  from Cons.prems have m: "\<not> (m_type m = Some ''response'' \<and> m_id m = Some msg_id)"
    and ms: "no_matching_response msg_id ms"
    by (simp_all add: no_matching_response_def)
  from Cons.prems(1) have u: "futures s fid = Unsettled" by (simp add: owned_def)
  from read_message_owned [OF Cons.prems(1) m]
  have 1: "owned msg_id fid (read_message m s)"
    and 2: "set (pending_requests (read_message m s)) \<subseteq> set (pending_requests s)"
    and 3: "next_future (read_message m s) = next_future s" by simp_all
  from Cons.IH [OF 1 ms] 2 3 u show ?case by auto
qed

lemma send_request_begin_owned:
  assumes "ipc_wf s" and "send_request_begin msg_id action data now s = (fid, s1)"
  shows "owned msg_id fid s1" and "fid = next_future s"
    and "set (pending_requests s1) \<subseteq> insert (msg_id, fid) (set (pending_requests s))"
    and "next_future s1 = Suc (next_future s)"
proof -
  from assms(2) show fid: "fid = next_future s"
    by (auto simp: send_request_begin_def Let_def)
  from assms(2) have p: "pending_requests s1
                           = AList.update msg_id fid (pending_requests s)"
    and u: "futures s1 fid = Unsettled"
    by (auto simp: send_request_begin_def send_def Let_def)
  show sub: "set (pending_requests s1) \<subseteq> insert (msg_id, fid) (set (pending_requests s))"
    unfolding p by (rule set_update_subset)
  from assms(1) fid have "\<forall>kv \<in> set (pending_requests s). snd kv \<noteq> fid"
    by (auto simp: ipc_wf_def list_all_iff)
  with sub u show "owned msg_id fid s1" by (auto simp: owned_def list_all_iff)
  from assms(2) show "next_future s1 = Suc (next_future s)"
    by (auto simp: send_request_begin_def send_def Let_def)
qed

lemma send_request_times_out:
  assumes wf: "ipc_wf s" and nm: "no_matching_response msg_id inbound"
  shows "fst (send_request msg_id action data now inbound s)
           = Inl (Exception (''Request timeout: '' @ action))"
    and "fst ` set (pending_requests (snd (send_request msg_id action data now inbound s)))
           \<subseteq> fst ` set (pending_requests s) - {msg_id}"
    and "ipc_wf (snd (send_request msg_id action data now inbound s))"
proof -
  obtain fid s1 where b: "send_request_begin msg_id action data now s = (fid, s1)"
    by (cases "send_request_begin msg_id action data now s")
  note bo = send_request_begin_owned [OF wf b]
  let ?s2 = "await_future fid inbound s1"
  let ?s3 = "?s2\<lparr>pending_requests := AList.delete msg_id (pending_requests ?s2)\<rparr>"
  from await_future_owned [OF bo(1) nm]
  have o2: "owned msg_id fid ?s2"
    and k2: "set (pending_requests ?s2) \<subseteq> set (pending_requests s1)"
    and n2: "next_future ?s2 = next_future s1" by simp_all
  from o2 have u: "futures ?s2 fid = Unsettled" by (simp add: owned_def)
  have res: "send_request msg_id action data now inbound s
               = (Inl (Exception (''Request timeout: '' @ action)), ?s3)"
    using b u by (simp add: send_request_def send_request_end_def)
  then show "fst (send_request msg_id action data now inbound s)
               = Inl (Exception (''Request timeout: '' @ action))" by simp
  have e3: "set (pending_requests ?s3) \<subseteq> set (pending_requests ?s2)"
    by (simp add: set_delete_subset)
  have "fst ` set (pending_requests ?s3) \<subseteq> fst ` set (pending_requests s) - {msg_id}"
  proof
    fix k assume k: "k \<in> fst ` set (pending_requests ?s3)"
    then obtain v where kv: "(k, v) \<in> set (pending_requests ?s3)" by force
    from k have "k \<noteq> msg_id"
      using AList.delete_notin_dom [of msg_id "pending_requests ?s2"] by auto
    moreover from kv e3 have "(k, v) \<in> set (pending_requests ?s2)" by blast
    with k2 have "(k, v) \<in> set (pending_requests s1)" by blast
    with bo(3) have "(k, v) \<in> insert (msg_id, fid) (set (pending_requests s))" by blast
    then have "k \<in> insert msg_id (fst ` set (pending_requests s))" by force
    ultimately show "k \<in> fst ` set (pending_requests s) - {msg_id}" by simp
  qed
  with res show "fst ` set (pending_requests (snd (send_request msg_id action data now inbound s)))
           \<subseteq> fst ` set (pending_requests s) - {msg_id}" by simp
  from wf have "\<forall>kv \<in> set (pending_requests s). snd kv < Suc (next_future s)"
    by (auto simp: ipc_wf_def list_all_iff)
  with bo(2,3) have "\<forall>kv \<in> set (pending_requests s1). snd kv < Suc (next_future s)"
    by auto
  with e3 k2 have "\<forall>kv \<in> set (pending_requests ?s3). snd kv < Suc (next_future s)"
    by blast
  then have "ipc_wf ?s3" using n2 bo(4) by (simp add: ipc_wf_def list_all_iff)
  with res show "ipc_wf (snd (send_request msg_id action data now inbound s))" by simp
qed

lemma send_requests_time_out:
  "ipc_wf s \<Longrightarrow> list_all times_out cs \<Longrightarrow>
     fst (send_requests cs s)
       = map (\<lambda>c. Inl (Exception (''Request timeout: '' @ c_action c))) cs
     \<and> fst ` set (pending_requests (snd (send_requests cs s)))
         \<subseteq> fst ` set (pending_requests s) - c_id ` set cs
     \<and> ipc_wf (snd (send_requests cs s))"
proof (induction cs arbitrary: s)
  case Nil
  then show ?case by simp
next
  case (Cons c cs)
  from Cons.prems have "times_out c" and cs: "list_all times_out cs" by simp_all
  then have c: "no_matching_response (c_id c) (c_inbound c)" by (simp add: times_out_def)
  let ?r = "send_request (c_id c) (c_action c) (c_data c) (c_now c) (c_inbound c) s"
  note one = send_request_times_out [OF Cons.prems(1) c, of "c_action c" "c_data c" "c_now c"]
  obtain r s1 where r: "?r = (r, s1)" by (cases ?r)
  obtain rs s2 where rs: "send_requests cs s1 = (rs, s2)" by (cases "send_requests cs s1")
  from one r have r1: "r = Inl (Exception (''Request timeout: '' @ c_action c))"
    and k1: "fst ` set (pending_requests s1) \<subseteq> fst ` set (pending_requests s) - {c_id c}"
    and w1: "ipc_wf s1" by simp_all
  from Cons.IH [OF w1 cs] rs
  have r2: "rs = map (\<lambda>c. Inl (Exception (''Request timeout: '' @ c_action c))) cs"
    and k2: "fst ` set (pending_requests s2) \<subseteq> fst ` set (pending_requests s1) - c_id ` set cs"
    and w2: "ipc_wf s2" by simp_all
  from k1 k2 have "fst ` set (pending_requests s2)
                     \<subseteq> fst ` set (pending_requests s) - c_id ` set (c # cs)"
    unfolding list.set image_insert by blast
  with r rs r1 r2 w2 show ?case by simp
qed

lemma ipc_wf_init: "ipc_wf ipc_init"
  by (simp add: ipc_wf_def ipc_init_def)

lemma ipc_wf_read_message:
  assumes "ipc_wf s"
  shows "ipc_wf (read_message m s)"
proof (cases "m_type m = Some ''response'' \<and>
              (\<exists>i. m_id m = Some i \<and> i \<noteq> [] \<and> map_of (pending_requests s) i \<noteq> None)")
  case False
  from handle_message_unmatched(1-3) [OF False] assms show ?thesis
    by (simp add: read_message_fields ipc_wf_def)
next
  case True
  then obtain i f where resp: "m_type m = Some ''response''" and i: "m_id m = Some i"
    and ne: "i \<noteq> []" and f: "map_of (pending_requests s) i = Some f" by auto
  from handle_message_matched [OF resp i ne f] obtain x where
    h: "handle_message m s
          = settle f x (s\<lparr>stderr := stderr s @ [(Info, Processing_message (m_type m) (m_id m))],
                         pending_requests := AList.delete i (pending_requests s)\<rparr>)" ..
  from assms set_delete_subset [of i "pending_requests s"]
  have "list_all (\<lambda>kv. snd kv < next_future s) (AList.delete i (pending_requests s))"
    by (auto simp: ipc_wf_def list_all_iff)
  then show ?thesis by (simp add: ipc_wf_def read_message_fields h settle_fields)
qed

section \<open>Copies and live objects in the snapshot\<close>

text \<open>
  A snapshot that holds copies only reads the same in every state of the plugin, and
  copying the live objects at the call gives such a snapshot; the one \<^verbatim>\<open>get_detailed_info\<close>
  returns is not of that kind.
\<close>

lemma read_snapshot_detached:
  assumes "detached d"
  shows "read_snapshot d s' = read_snapshot d s"
proof -
  from assms obtain b t e st cp ep tp where
    "di_basic d = Copied b" "di_tasks d = Copied t" "di_errors d = Copied e"
    "di_statistics d = Copied st" "di_command_performance d = Copied cp"
    "di_event_performance d = Copied ep" "di_task_performance d = Copied tp"
    unfolding detached_def
    by (cases "di_basic d"; cases "di_tasks d"; cases "di_errors d"; cases "di_statistics d";
        cases "di_command_performance d"; cases "di_event_performance d";
        cases "di_task_performance d") simp_all
  then show ?thesis by (simp add: read_snapshot_def)
qed

lemma detached_copy_snapshot: "detached (copy_snapshot d s)"
  by (simp add: detached_def copy_snapshot_def)

lemma read_copy_snapshot: "read_snapshot (copy_snapshot d s) s' = read_snapshot d s"
  by (simp add: read_snapshot_def copy_snapshot_def)

lemma get_detailed_info_not_detached: "\<not> detached (get_detailed_info s)"
  by (simp add: detached_def get_detailed_info_def)

section \<open>The claims\<close>

text \<open>
  Claim C1: for a command with a registered handler, one call of \<^verbatim>\<open>dispatch_command\<close>
  succeeds and raises the counter \<^verbatim>\<open>command_executions\<close> by exactly 1.

  The call succeeds, but it is counted twice: \<^verbatim>\<open>dispatch_command\<close> adds 1 before it calls
  the stored wrapper, and the wrapper adds 1 again. On a new plugin with the command \<^verbatim>\<open>x\<close>
  registered, one dispatch takes the counter from 0 to 2.
\<close>

theorem dispatch_command_counts_twice:
  "fst (dispatch_command ''x'' [] None env0 env0
          (register_command ''x'' returning_command [] demo)) = Inr ()
   \<and> command_executions (statistics demo) = 0
   \<and> command_executions (statistics (snd (dispatch_command ''x'' [] None env0 env0
          (register_command ''x'' returning_command [] demo)))) = 2"
  by (simp add: dispatch_command_def register_command_def demo_def init_def
      wrapped_command_handler_def returning_command_def command_enter_def wrapper_finally_def
      record_performance_internal_def select_slot_def env0_def Let_def)

text \<open>
  Claim C2: when the handler under a command wrapper or an event wrapper raises, the wrapper
  records the error and raises the same exception to its caller.

  The event wrapper does. The command wrapper records the error, sends the notice and
  returns: with a handler that raises, both the wrapper and \<^verbatim>\<open>dispatch_command\<close> return
  normally.
\<close>

theorem command_wrapper_swallows_failure:
  "failing_command [] [] = Some (Exception ''boom'')
   \<and> fst (wrapped_command_handler ''x'' failing_command env0 [] [] demo) = Inr ()
   \<and> fst (dispatch_command ''x'' [] None env0 env0
            (register_command ''x'' failing_command [] demo)) = Inr ()"
  by (simp add: dispatch_command_def register_command_def demo_def init_def
      wrapped_command_handler_def failing_command_def Let_def)

text \<open>
  Claim C3: every invocation through a wrapper, of a command, an event or a task, raises the
  concurrency counter and its high-water mark, lowers the counter again and appends a
  performance sample under the handler's name.

  The task wrapper does none of it: after a scheduled task has run through its wrapper the
  task performance dictionary is still empty and the high-water mark is still 0, where one
  event through its wrapper leaves a record under its name and a high-water mark of 1.
\<close>

theorem task_wrapper_untracked:
  "fst (wrapped_task_handler ''t'' returning_task env0
          (snd (schedule ''t'' ''0 * * * *'' returning_task None demo))) = Inr ()
   \<and> task_performance (snd (wrapped_task_handler ''t'' returning_task env0
          (snd (schedule ''t'' ''0 * * * *'' returning_task None demo)))) = []
   \<and> max_concurrent_operations (snd (wrapped_task_handler ''t'' returning_task env0
          (snd (schedule ''t'' ''0 * * * *'' returning_task None demo)))) = 0
   \<and> map fst (event_performance (snd (wrapped_event_handler ''message'' returning_event env0 []
          demo))) = [''message'']
   \<and> max_concurrent_operations (snd (wrapped_event_handler ''message'' returning_event env0 []
          demo)) = 1"
  by (simp add: wrapped_task_handler_def schedule_def demo_def init_def returning_task_def
      task_enter_def wrapped_event_handler_def returning_event_def event_enter_def
      wrapper_finally_def record_performance_internal_def select_slot_def env0_def Let_def)

text \<open>
  Claim C4, as amended: the concurrency counter is never negative: at every point of every
  schedule it is the number of command and event wrappers that have been entered and not
  yet left (task wrappers are not counted). After an invocation of a wrapped handler during
  which no other wrapper is entered or left, whether the handler returns or raises, the
  counter has the value it had before the invocation.

  The schedule starts from a new plugin and may start wrappers, let handlers return or
  raise in any order, and run any operation in between. The three equations on \<open>steps\<close>
  say that an invocation scheduled without interruption at the point reached is the wrapper
  run without overlap.
\<close>

theorem concurrency_counter_counts_in_flight:
  assumes "steps sched (init pid pname t0, []) = Some (s, fs)"
  shows "concurrent_operations s = in_flight fs
   \<and> 0 \<le> concurrent_operations s
   \<and> steps (Call_command c ev env # Return (length fs) (ch ev args) env #
             (case ch ev args of None \<Rightarrow> [] | Some e \<Rightarrow> [Notice_done (length fs) env])) (s, fs)
       = Some (snd (wrapped_command_handler c ch env ev args s), fs)
   \<and> concurrent_operations (snd (wrapped_command_handler c ch env ev args s))
       = concurrent_operations s
   \<and> steps [Call_event t ev env, Return (length fs) (eh ev) env] (s, fs)
       = Some (snd (wrapped_event_handler t eh env ev s), fs)
   \<and> concurrent_operations (snd (wrapped_event_handler t eh env ev s))
       = concurrent_operations s
   \<and> steps [Call_task n env, Return (length fs) (th ()) env] (s, fs)
       = Some (snd (wrapped_task_handler n th env s), fs)
   \<and> concurrent_operations (snd (wrapped_task_handler n th env s))
       = concurrent_operations s"
proof -
  from steps_balance [OF assms] have c: "concurrent_operations s = in_flight fs"
    by (simp add: init_def in_flight_def)
  with in_flight_nonneg [of fs] have "0 \<le> concurrent_operations s" by simp
  with c show ?thesis
    by (simp only: steps_command_alone steps_event_alone steps_task_alone
        conc_wrapped_command_handler conc_wrapped_event_handler conc_wrapped_task_handler
        simp_thms)
qed

theorem concurrency_counter_counts_in_flight_witness:
  "steps [Call_event ''message'' [] env0, Call_command ''x'' [] env0, Return 0 None env0]
       (init ''demo'' None 0, [])
     = Some (wrapper_finally ''event'' ''message'' True env0
               (command_enter env0 (event_enter env0 (init ''demo'' None 0))),
             [new_frame Command_kind ''x'' [] env0])
   \<and> concurrent_operations (wrapper_finally ''event'' ''message'' True env0
        (command_enter env0 (event_enter env0 (init ''demo'' None 0)))) = 1"
proof -
  have h: "steps [Call_event ''message'' [] env0, Call_command ''x'' [] env0, Return 0 None env0]
       (init ''demo'' None 0, [])
     = Some (wrapper_finally ''event'' ''message'' True env0
               (command_enter env0 (event_enter env0 (init ''demo'' None 0))),
             [new_frame Command_kind ''x'' [] env0])"
    by (simp add: return_frame_def new_frame_def drop_frame_def Let_def)
  from concurrency_counter_counts_in_flight [OF h]
  have "concurrent_operations (wrapper_finally ''event'' ''message'' True env0
          (command_enter env0 (event_enter env0 (init ''demo'' None 0))))
        = in_flight [new_frame Command_kind ''x'' [] env0]" by blast
  with h show ?thesis by (simp add: in_flight_def tracked_def new_frame_def)
qed

text \<open>
  The claim as first stated has the counter back at its earlier value after every single
  invocation. Two event wrappers are entered one after the other on a new plugin; when the
  first has left, the counter is 1, and it was 0 before the first was entered.
\<close>

theorem overlapping_invocations_counterexample:
  "counter_after [Call_event ''message'' [] env0, Call_event ''message'' [] env0,
                  Return 0 None env0] demo = Some 1
   \<and> counter_after [Call_event ''message'' [] env0, Call_event ''message'' [] env0,
                    Return 0 None env0] demo \<noteq> Some (concurrent_operations demo)"
  by (simp add: counter_after_def return_frame_def new_frame_def drop_frame_def Let_def
      conc_wrapper_finally conc_event_enter demo_def init_def)


text \<open>
  Claim C5: a \<^verbatim>\<open>send_request\<close> that gets no matching response before its deadline fails
  with the timeout error, whose message carries the action name, and the registry has no
  entry for its id afterwards, however many requests time out.

  For calls made one after the other from a well-formed client, none of which receives a
  response with its id: every call fails with \<^verbatim>\<open>Request timeout: \<close> followed by its action,
  no id of any of the calls is in the registry at the end, and the registry has no key it
  did not have at the start.
\<close>

theorem timed_out_requests_leave_no_entry:
  assumes "ipc_wf s" and "list_all times_out cs"
  shows "fst (send_requests cs s)
           = map (\<lambda>c. Inl (Exception (''Request timeout: '' @ c_action c))) cs
         \<and> (\<forall>c \<in> set cs. map_of (pending_requests (snd (send_requests cs s))) (c_id c) = None)
         \<and> set (map fst (pending_requests (snd (send_requests cs s))))
             \<subseteq> set (map fst (pending_requests s))"
proof -
  from send_requests_time_out [OF assms]
  have r: "fst (send_requests cs s)
             = map (\<lambda>c. Inl (Exception (''Request timeout: '' @ c_action c))) cs"
    and k: "fst ` set (pending_requests (snd (send_requests cs s)))
              \<subseteq> fst ` set (pending_requests s) - c_id ` set cs" by simp_all
  have n: "\<forall>c \<in> set cs. map_of (pending_requests (snd (send_requests cs s))) (c_id c) = None"
  proof
    fix c assume "c \<in> set cs"
    with k have "c_id c \<notin> fst ` set (pending_requests (snd (send_requests cs s)))" by blast
    then show "map_of (pending_requests (snd (send_requests cs s))) (c_id c) = None"
      by (simp add: map_of_eq_None_iff)
  qed
  from k have "fst ` set (pending_requests (snd (send_requests cs s)))
                 \<subseteq> fst ` set (pending_requests s)" by blast
  then have "set (map fst (pending_requests (snd (send_requests cs s))))
               \<subseteq> set (map fst (pending_requests s))" by simp
  with r n show ?thesis by blast
qed

theorem timed_out_requests_leave_no_entry_witness:
  "ipc_wf ipc_init \<and> list_all times_out two_calls
   \<and> fst (send_requests two_calls ipc_init)
       = [Inl (Exception ''Request timeout: callApi''), Inl (Exception ''Request timeout: notify'')]
   \<and> pending_requests (snd (send_requests two_calls ipc_init)) = []"
proof -
  have w: "ipc_wf ipc_init" by (rule ipc_wf_init)
  have t: "list_all times_out two_calls"
    by (simp add: two_calls_def times_out_def no_matching_response_def stray_response_def)
  from timed_out_requests_leave_no_entry [OF w t]
  have r: "fst (send_requests two_calls ipc_init)
             = map (\<lambda>c. Inl (Exception (''Request timeout: '' @ c_action c))) two_calls"
    and k: "set (map fst (pending_requests (snd (send_requests two_calls ipc_init))))
              \<subseteq> set (map fst (pending_requests ipc_init))" by simp_all
  from k have "pending_requests (snd (send_requests two_calls ipc_init)) = []"
    by (simp add: ipc_init_def)
  moreover from r have "fst (send_requests two_calls ipc_init)
       = [Inl (Exception ''Request timeout: callApi''), Inl (Exception ''Request timeout: notify'')]"
    by (simp add: two_calls_def)
  ultimately show ?thesis using w t by simp
qed

text \<open>
  Claim C6, as amended: a response whose id is missing or has no entry in the registry is
  dropped without an error; the registry and every other part of the client stay as they
  were, and the only line written is the \<open>Info\<close> line every inbound message gets. No line at
  warning level is written: the client logs at \<open>Info\<close> and \<open>Error\<close> only.
\<close>

theorem unmatched_response_discarded:
  assumes "m_type m = Some ''response''" and "unmatched m s"
  shows "handle_message m s
           = (Inr (), s\<lparr>stderr := stderr s @
                          [(Info, Processing_message (Some ''response'') (m_id m))]\<rparr>)"
proof (cases "m_id m")
  case None
  with assms(1) show ?thesis by (simp add: handle_message_def log_info_def Let_def)
next
  case (Some i)
  with assms(2) have "map_of (pending_requests s) i = None" by (simp add: unmatched_def)
  with assms(1) Some show ?thesis by (simp add: handle_message_def log_info_def Let_def)
qed

theorem unmatched_response_discarded_witness:
  "m_type stray_response = Some ''response'' \<and> unmatched stray_response one_pending
   \<and> fst (handle_message stray_response one_pending) = Inr ()
   \<and> pending_requests (snd (handle_message stray_response one_pending)) = [(''abc'', 0)]
   \<and> stderr (snd (handle_message stray_response one_pending))
       = [(Info, Processing_message (Some ''response'') (Some ''gone''))]"
proof -
  have t: "m_type stray_response = Some ''response''" by (simp add: stray_response_def)
  have u: "unmatched stray_response one_pending"
    by (simp add: unmatched_def stray_response_def one_pending_def)
  from unmatched_response_discarded [OF t u] t u show ?thesis
    by (simp add: one_pending_def ipc_init_def stray_response_def)
qed

text \<open>
  The claim as first stated has the discard logged at warning level; a late response to a
  client with one other pending request is dropped with no such line.
\<close>

theorem warning_log_counterexample:
  "\<not> (fst (handle_message stray_response one_pending) = Inr ()
      \<and> pending_requests (snd (handle_message stray_response one_pending))
          = pending_requests one_pending
      \<and> Warn \<in> set (map fst (stderr (snd (handle_message stray_response one_pending)))))"
  by (simp add: handle_message_def stray_response_def one_pending_def ipc_init_def
      log_info_def Let_def)

text \<open>
  Claim C7: after any run of operations the error log has at most 100 entries and every
  performance window at most 20; a recording that would exceed the bound drops the oldest
  entry.

  The first two parts are the bounds after any run on a new plugin. The others say what a
  recording does on any state: the new entry goes to the end, and the head of the list, its
  oldest entry, is dropped exactly when the list was already full.
\<close>

theorem caps_and_eviction:
  "length (errors (run ops (init pid pname t0))) \<le> 100
   \<and> (map_of (perf_map sl (run ops (init pid pname t0))) name = Some p
        \<longrightarrow> length (last_executions p) \<le> 20)
   \<and> errors (record_error ty src e tr now s) =
       (if length (errors s) < 100 then errors s else tl (errors s)) @
       [\<lparr>e_type = ty, e_source = src, e_message = str_of e, e_stack = tr,
         e_timestamp = now * 1000, e_plugin_id = info_id s,
         e_plugin_name = (case info_name s of Some n \<Rightarrow> n | None \<Rightarrow> info_id s)\<rparr>]
   \<and> (0 \<le> d \<longrightarrow>
        map_of (perf_map (select_slot ty) (record_performance ty name d ok now s)) name
          = Some (add_sample d ok now
                   (case map_of (perf_map (select_slot ty) s) name of
                      None \<Rightarrow> new_perf | Some q \<Rightarrow> q)))
   \<and> last_executions (add_sample d ok now q) =
       (if length (last_executions q) < 20 then last_executions q
        else tl (last_executions q)) @
       [\<lparr>sm_timestamp = now * 1000, sm_duration = d, sm_success = ok\<rparr>]"
proof -
  have ok: "plugin_ok (run ops (init pid pname t0))" by (rule plugin_ok_run)
  then have 1: "length (errors (run ops (init pid pname t0))) \<le> 100"
    by (simp add: plugin_ok_def)
  have 2: "map_of (perf_map sl (run ops (init pid pname t0))) name = Some p
             \<longrightarrow> length (last_executions p) \<le> 20"
  proof
    assume "map_of (perf_map sl (run ops (init pid pname t0))) name = Some p"
    with perfs_ok_perf_map [OF ok, of sl] have "perf_ok p" by (rule perfs_ok_lookup)
    then show "length (last_executions p) \<le> 20" by (simp add: perf_ok_def)
  qed
  note 3 = errors_record_error_internal [of ty src e tr now s]
  note 4 = lookup_record_performance_internal [of d ty name ok now s]
  note 5 = last_executions_add_sample [of d ok now q]
  from 1 2 3 4 5 show ?thesis unfolding record_error_def record_performance_def by blast
qed

theorem caps_and_eviction_witness:
  "(0::real) \<le> 5
   \<and> map_of (perf_map Command_slot
        (run [Op_record_performance ''command'' ''x'' 5 True 1] (init ''demo'' None 0))) ''x''
       = Some (add_sample 5 True 1 new_perf)
   \<and> length (last_executions (add_sample 5 True 1 new_perf)) \<le> 20
   \<and> map_of (perf_map (select_slot ''command'')
        (record_performance ''command'' ''x'' 5 True 1 (init ''demo'' None 0))) ''x''
       = Some (add_sample 5 True 1 new_perf)"
proof -
  have h: "map_of (perf_map Command_slot
        (run [Op_record_performance ''command'' ''x'' 5 True 1] (init ''demo'' None 0))) ''x''
       = Some (add_sample 5 True 1 new_perf)"
    by (simp add: run_def record_performance_def record_performance_internal_def
        select_slot_def init_def Let_def)
  have d: "(0::real) \<le> 5" by simp
  note th = caps_and_eviction [of "[Op_record_performance ''command'' ''x'' 5 True 1]"
      "''demo''" None 0 Command_slot "''x''" "add_sample 5 True 1 new_perf" "''command''"
      "''src''" "Exception ''boom''" "''trace''" 1 "init ''demo'' None 0" 5 True new_perf]
  from th h have a: "length (last_executions (add_sample 5 True 1 new_perf)) \<le> 20"
    by blast
  from th d
  have b: "map_of (perf_map (select_slot ''command'')
             (record_performance ''command'' ''x'' 5 True 1 (init ''demo'' None 0))) ''x''
           = Some (add_sample 5 True 1
                (case map_of (perf_map (select_slot ''command'') (init ''demo'' None 0)) ''x''
                 of None \<Rightarrow> new_perf | Some q \<Rightarrow> q))"
    by blast
  have c: "map_of (perf_map (select_slot ''command'') (init ''demo'' None 0)) ''x'' = None"
    by (simp add: select_slot_def init_def)
  from b c
  have b': "map_of (perf_map (select_slot ''command'')
             (record_performance ''command'' ''x'' 5 True 1 (init ''demo'' None 0))) ''x''
           = Some (add_sample 5 True 1 new_perf)"
    by simp
  from h d a b' show ?thesis by blast
qed

text \<open>
  Claim C8: after any run of operations, the record stored under any name in any of the
  performance dictionaries has \<^verbatim>\<open>avg_duration = total_duration / total_executions\<close>, with
  at least one execution, and \<^verbatim>\<open>total_executions = successful_executions +
  failed_executions\<close>.
\<close>

theorem performance_totals:
  "map_of (perf_map sl (run ops (init pid pname t0))) name = Some p \<Longrightarrow>
     1 \<le> total_executions p
     \<and> avg_duration p = total_duration p / of_int (total_executions p)
     \<and> total_executions p = successful_executions p + failed_executions p"
proof -
  assume "map_of (perf_map sl (run ops (init pid pname t0))) name = Some p"
  with perfs_ok_perf_map [OF plugin_ok_run, of sl ops pid pname t0]
  have "perf_ok p" by (rule perfs_ok_lookup)
  then show ?thesis by (simp add: perf_ok_def)
qed

theorem performance_totals_witness:
  "map_of (perf_map Command_slot
      (run [Op_record_performance ''command'' ''x'' 4 True 1,
            Op_record_performance ''command'' ''x'' 2 False 2] (init ''demo'' None 0))) ''x''
     = Some (add_sample 2 False 2 (add_sample 4 True 1 new_perf))
   \<and> avg_duration (add_sample 2 False 2 (add_sample 4 True 1 new_perf)) = 3
   \<and> total_duration (add_sample 2 False 2 (add_sample 4 True 1 new_perf)) = 6
   \<and> total_executions (add_sample 2 False 2 (add_sample 4 True 1 new_perf)) = 2
   \<and> successful_executions (add_sample 2 False 2 (add_sample 4 True 1 new_perf)) = 1
   \<and> failed_executions (add_sample 2 False 2 (add_sample 4 True 1 new_perf)) = 1"
proof -
  let ?p = "add_sample 2 False 2 (add_sample 4 True 1 new_perf)"
  have h: "map_of (perf_map Command_slot
      (run [Op_record_performance ''command'' ''x'' 4 True 1,
            Op_record_performance ''command'' ''x'' 2 False 2] (init ''demo'' None 0))) ''x''
     = Some ?p"
    by (simp add: run_def record_performance_def record_performance_internal_def
        select_slot_def init_def Let_def)
  have t: "total_duration ?p = 6" "total_executions ?p = 2"
    "successful_executions ?p = 1" "failed_executions ?p = 1"
    by (simp_all add: add_sample_def new_perf_def Let_def)
  from performance_totals [OF h] t h show ?thesis by simp
qed

text \<open>
  Claim C9, as amended: the snapshot is a new dictionary. Its status fields (enabled flag,
  time of the last activity), its lists of command and event names, its task entries, its
  error list (the last ten entries), its average execution time and its thread-safety
  figures are built at the call and read the same whatever happens to the plugin later.
  Its basic information, its statistics and its three performance dictionaries are the
  plugin's own objects: what is read there is their contents at the time of reading.

  \<open>s\<close> is the state at the call and \<open>s'\<close> any later state.
\<close>

theorem snapshot_contents:
  "read_snapshot (get_detailed_info s) s' =
     \<lparr>sv_basic = (info_id s', info_name s'),
      sv_is_enabled = is_enabled s,
      sv_last_activity = last_activity s,
      sv_commands = map fst (command_handlers s),
      sv_events = map fst (event_handlers s),
      sv_tasks = map view_task (scheduled_tasks s),
      sv_errors = drop (length (errors s) - 10) (errors s),
      sv_statistics = statistics s',
      sv_command_performance = command_performance s',
      sv_event_performance = event_performance s',
      sv_task_performance = task_performance s',
      sv_avg_execution_time = calculate_avg_execution_time s,
      sv_concurrent_requests = concurrent_operations s,
      sv_max_concurrent_requests = max_concurrent_operations s,
      sv_warnings = [],
      sv_is_healthy = True\<rparr>"
  by (simp add: read_snapshot_def get_detailed_info_def)

text \<open>
  The claim as first stated has the whole snapshot unchanged by later mutations; an error
  recorded after the snapshot was taken shows in its statistics.
\<close>

theorem snapshot_alias_counterexample:
  "read_snapshot (get_detailed_info demo) after_error
     \<noteq> read_snapshot (get_detailed_info demo) demo"
proof
  assume "read_snapshot (get_detailed_info demo) after_error
            = read_snapshot (get_detailed_info demo) demo"
  then have "sv_statistics (read_snapshot (get_detailed_info demo) after_error)
               = sv_statistics (read_snapshot (get_detailed_info demo) demo)"
    by simp
  then show False
    by (simp add: read_snapshot_def get_detailed_info_def after_error_def demo_def init_def
        record_error_def record_error_internal_def Let_def)
qed


text \<open>
  Claim C10: for a request without an id the router calls no handler and writes no response,
  neither a result nor an error, and the state of the client stays as it was: the one effect
  is the error line on the diagnostic channel.
\<close>

theorem request_without_id_ignored:
  assumes "m_id m = None"
  shows "handle_request m now s = s\<lparr>stderr := stderr s @ [(Error, Request_without_id)]\<rparr>
         \<and> stdout (handle_request m now s) = stdout s
         \<and> invoked (handle_request m now s) = invoked s"
  using assms by (simp add: handle_request_def log_error_def Let_def)

theorem request_without_id_ignored_witness:
  "m_id request_without_id = None
   \<and> map_of (ipc_event_handlers (on_request ''getInfo'' info_handler ipc_init))
       ''request:getInfo'' = Some info_handler
   \<and> stdout (handle_request request_without_id 7
               (on_request ''getInfo'' info_handler ipc_init)) = []
   \<and> invoked (handle_request request_without_id 7
                (on_request ''getInfo'' info_handler ipc_init)) = []"
proof -
  have h: "m_id request_without_id = None" by (simp add: request_without_id_def)
  from request_without_id_ignored [OF h, of 7 "on_request ''getInfo'' info_handler ipc_init"] h
  show ?thesis by (simp add: on_request_def ipc_init_def)
qed

end
